theory Spec2Isabelle
  imports Main "HOL-Library.Word"
begin

unbundle bit_operations_syntax

section \<open>Values shared by the two adapters\<close>

text \<open>
  The repository holds two polling adapters with the same architecture: the Abnormal
  Security adapter (\<^verbatim>\<open>abnormal_security/client.go\<close>) and the Darktrace adapter. Both poll
  vendor endpoints on a ticker, filter what comes back through a watermark and a dedupe
  cache, and ship the admitted events. Names of the first are prefixed \<open>abnormal_\<close>, names
  of the second \<open>darktrace_\<close>, where the two packages use the same Go name.

  The values an event holds are the values Go's JSON decoder puts behind an
  \<^verbatim>\<open>interface{}\<close> (JSON numbers are kept as integers: no claim reads one).
\<close>

datatype jvalue =
    JNull
  | JBool bool
  | JNumber int
  | JString string
  | JArray "jvalue list"
  | JObject "(string \<times> jvalue) list"

text \<open>
  Modelled from the spec: the type \<^verbatim>\<open>utils.Dict\<close> of the repository's \<^verbatim>\<open>utils\<close> package,
  which is not among the sources. The spec calls an event an untyped key to value
  mapping, a heterogeneous JSON-like object, and the adapters index it by a string and
  assert the type of what they get: a Go \<^verbatim>\<open>map[string]interface{}\<close>. It is an association
  list read with \<open>map_of\<close>.
\<close>

type_synonym Dict = "(string \<times> jvalue) list"

text \<open>\<^verbatim>\<open>event[k]\<close>: a missing key reads as the nil interface value, as JSON null does.\<close>

definition dictIndex :: "Dict \<Rightarrow> string \<Rightarrow> jvalue" where
  "dictIndex event k = (case map_of event k of None \<Rightarrow> JNull | Some v \<Rightarrow> v)"

text \<open>The type assertion \<^verbatim>\<open>v.(string)\<close> in its comma-ok form.\<close>

definition asString :: "jvalue \<Rightarrow> string option" where
  "asString v = (case v of JString s \<Rightarrow> Some s | _ \<Rightarrow> None)"

subsection \<open>Time\<close>

text \<open>
  A \<^verbatim>\<open>time.Time\<close> is an instant: the number of nanoseconds since the Unix epoch, an
  unbounded integer (the 64-bit limits of Go's representation lie centuries away from
  any event time and are not modelled). A \<^verbatim>\<open>time.Duration\<close> is a number of nanoseconds.
\<close>

type_synonym time = int

definition Second :: int where "Second = 1000000000"
definition Minute :: int where "Minute = 60 * Second"
definition Hour :: int where "Hour = 60 * Minute"

definition Unix :: "time \<Rightarrow> int" where
  "Unix t = t div 1000000000"

definition UnixMilli :: "time \<Rightarrow> int" where
  "UnixMilli t = t div 1000000"

definition time_UnixMilli :: "int \<Rightarrow> time" where
  "time_UnixMilli ms = ms * 1000000"

definition After :: "time \<Rightarrow> time \<Rightarrow> bool" where
  "After t u = (u < t)"

text \<open>The zero \<^verbatim>\<open>time.Time{}\<close>: January 1 of year 1, 00:00 UTC.\<close>

definition zeroTime :: time where
  "zeroTime = - 62135596800 * 1000000000"

definition IsZero :: "time \<Rightarrow> bool" where
  "IsZero t = (t = zeroTime)"

definition RFC3339 :: string where
  "RFC3339 = ''2006-01-02T15:04:05Z07:00''"

subsection \<open>Errors and callbacks\<close>

datatype err =
    ClientOptionsInvalid string
  | MissingAccessToken
  | MissingUrl
  | MissingPublicToken
  | MissingPrivateToken
  | NewClientFailed string
  | RequestError string
  | Unauthorized
  | Non200 int string
  | InvalidJson
  | ContextCanceled
  | FetchFailed string err
  | DetailsFetchFailed string err
  | InvalidTimestamp string
  | ShipError string

text \<open>
  What the adapter tells its \<^verbatim>\<open>ClientOptions\<close> callbacks (\<^verbatim>\<open>OnWarning\<close>, \<^verbatim>\<open>OnError\<close>,
  \<^verbatim>\<open>DebugLog\<close>), in call order. A warning or debug line keeps the fixed part of the
  source's format string, not the formatted arguments.
\<close>

datatype notice = Warning string | Error err | Debug string

subsection \<open>What the standard library and the vendor decide\<close>

text \<open>
  Functions of Go's standard library that the adapters call and whose results the
  claims do not depend on are parameters of the model.
\<close>

record externals =
  json_Marshal :: "Dict \<Rightarrow> string option"
  json_Unmarshal_paged :: "string \<Rightarrow> string \<Rightarrow> (Dict list \<times> int) option"
  json_Unmarshal_dict :: "string \<Rightarrow> Dict option"
  json_Unmarshal_list :: "string \<Rightarrow> Dict list option"
  time_Parse :: "string \<Rightarrow> string \<Rightarrow> time option"
  time_Format :: "string \<Rightarrow> time \<Rightarrow> string"
  http_ParseTime :: "string \<Rightarrow> time option"
  http_NewRequest_ok :: "string \<Rightarrow> bool"
  url_RequestURI :: "string \<Rightarrow> string option"
  hmac_sha1_hex :: "string \<Rightarrow> string \<Rightarrow> string"

text \<open>
  One HTTP attempt either fails before a response is read (\<^verbatim>\<open>httpClient.Do\<close> or
  \<^verbatim>\<open>io.ReadAll\<close> returns an error: transport failure, timeout, cancelled context) or
  yields a status code, the value of the \<^verbatim>\<open>Retry-After\<close> header (empty when absent) and
  the body.
\<close>

datatype http_outcome =
    DoError string
  | Response int string string

text \<open>\<^verbatim>\<open>uspClient.Ship\<close> returns nil, \<^verbatim>\<open>uspclient.ErrorBufferFull\<close>, or another error.\<close>

datatype ship_outcome = ShipOk | ErrorBufferFull | ShipFailed string

text \<open>
  The part of the world the adapter acts on. \<open>now\<close> is the wall clock; \<open>cancelAt\<close> is
  the instant at which the adapter's context is cancelled (\<open>None\<close>: not so far);
  \<open>requests\<close> are the URLs requested; \<open>slept\<close> the durations of the backoff sleeps that
  ran to their end; \<open>ships\<close> the outcomes the delivery sink will give to the next
  \<^verbatim>\<open>Ship\<close> calls (every call after the listed ones succeeds); \<open>shipped\<close> the \<^verbatim>\<open>Ship\<close> calls
  made, each with its message, its wait bound and its outcome; \<open>stopped\<close> says that
  \<^verbatim>\<open>Close\<close> has run its one-shot body.
\<close>

record DataMessage =
  JsonPayload :: Dict
  TimestampMs :: nat

record env =
  now :: time
  cancelAt :: "time option"
  requests :: "string list"
  slept :: "int list"
  notices :: "notice list"
  ships :: "ship_outcome list"
  shipped :: "(DataMessage \<times> int \<times> ship_outcome) list"
  stopped :: bool

definition notify :: "notice \<Rightarrow> env \<Rightarrow> env" where
  "notify n e = e\<lparr>notices := notices e @ [n]\<rparr>"

definition ctxDone :: "env \<Rightarrow> bool" where
  "ctxDone e = (case cancelAt e of None \<Rightarrow> False | Some c \<Rightarrow> c \<le> now e)"

text \<open>
  \<^verbatim>\<open>sleepContext\<close> (the same body in both adapters) races a timer of duration \<open>d\<close> against
  the context. A cancellation that is due no later than the timer wins: the call returns
  the context's error at the instant of the cancellation. Otherwise the timer fires (at
  once when \<open>d\<close> is not positive) and the call returns nil.
\<close>

definition sleepContext :: "int \<Rightarrow> env \<Rightarrow> err option \<times> env" where
  "sleepContext d e =
     (let fire = max (now e) (now e + d) in
      case cancelAt e of
        None \<Rightarrow> (None, e\<lparr>now := fire, slept := slept e @ [d]\<rparr>)
      | Some c \<Rightarrow>
          if c \<le> fire then (Some ContextCanceled, e\<lparr>now := max (now e) c\<rparr>)
          else (None, e\<lparr>now := fire, slept := slept e @ [d]\<rparr>))"

section \<open>Configuration and construction\<close>

text \<open>
  \<^verbatim>\<open>uspclient.ClientOptions\<close> belongs to another library. The model keeps what that
  library decides about a value: the error of its \<^verbatim>\<open>Validate\<close> and the error of
  \<^verbatim>\<open>uspclient.NewClient\<close>, if any.
\<close>

record uspclient_ClientOptions =
  validateError :: "string option"
  newClientError :: "string option"

record AbnormalSecurityConfig =
  ClientOptions :: uspclient_ClientOptions
  AccessToken :: string
  BaseURL :: string

record DarktraceConfig =
  dt_ClientOptions :: uspclient_ClientOptions
  Url :: string
  PublicToken :: string
  PrivateToken :: string

definition defaultBaseURL :: string where
  "defaultBaseURL = ''https://api.abnormalplatform.com/v1''"

text \<open>
  \<^verbatim>\<open>Validate\<close> has a pointer receiver: the Abnormal Security one writes the default base
  URL into the configuration, so it returns the configuration too.
\<close>

definition abnormal_Validate :: "AbnormalSecurityConfig \<Rightarrow> err option \<times> AbnormalSecurityConfig" where
  "abnormal_Validate c =
     (case validateError (ClientOptions c) of
        Some m \<Rightarrow> (Some (ClientOptionsInvalid m), c)
      | None \<Rightarrow>
          if AccessToken c = [] then (Some MissingAccessToken, c)
          else if BaseURL c = [] then (None, c\<lparr>BaseURL := defaultBaseURL\<rparr>)
          else (None, c))"

definition darktrace_Validate :: "DarktraceConfig \<Rightarrow> err option" where
  "darktrace_Validate c =
     (case validateError (dt_ClientOptions c) of
        Some m \<Rightarrow> Some (ClientOptionsInvalid m)
      | None \<Rightarrow>
          if Url c = [] then Some MissingUrl
          else if PublicToken c = [] then Some MissingPublicToken
          else if PrivateToken c = [] then Some MissingPrivateToken
          else None)"

text \<open>
  Construction. The result is the error, or the adapter: its configuration and its
  dedupe caches, one per source key, all empty. The second component says whether
  \<^verbatim>\<open>go a.fetchEvents()\<close> was reached, that is, whether the background polling task was
  started.
\<close>

record AbnormalSecurityAdapter =
  conf :: AbnormalSecurityConfig
  dedupes :: "string \<Rightarrow> (string \<rightharpoonup> int)"

record DarkTraceAdapter =
  dt_conf :: DarktraceConfig
  dt_dedupes :: "string \<Rightarrow> (string \<rightharpoonup> int)"

definition NewAbnormalSecurityAdapter ::
  "AbnormalSecurityConfig \<Rightarrow> (err + AbnormalSecurityAdapter) \<times> bool" where
  "NewAbnormalSecurityAdapter c =
     (case abnormal_Validate c of
        (Some e, _) \<Rightarrow> (Inl e, False)
      | (None, c') \<Rightarrow>
          (case newClientError (ClientOptions c') of
             Some m \<Rightarrow> (Inl (NewClientFailed m), False)
           | None \<Rightarrow> (Inr \<lparr>conf = c', dedupes = (\<lambda>_. Map.empty)\<rparr>, True)))"

definition NewDarkTraceAdapter ::
  "DarktraceConfig \<Rightarrow> (err + DarkTraceAdapter) \<times> bool" where
  "NewDarkTraceAdapter c =
     (case darktrace_Validate c of
        Some e \<Rightarrow> (Inl e, False)
      | None \<Rightarrow>
          (case newClientError (dt_ClientOptions c) of
             Some m \<Rightarrow> (Inl (NewClientFailed m), False)
           | None \<Rightarrow> (Inr \<lparr>dt_conf = c, dt_dedupes = (\<lambda>_. Map.empty)\<rparr>, True)))"

section \<open>The HTTP retry executor\<close>

subsection \<open>Reading the Retry-After header\<close>

text \<open>
  \<^verbatim>\<open>strconv.Atoi\<close>, written out: an optional sign, then one or more decimal digits, and a
  value within the 64-bit range of Go's \<^verbatim>\<open>int\<close>; anything else is an error.
\<close>

definition isDigit :: "char \<Rightarrow> bool" where
  "isDigit c = (48 \<le> (of_char c :: nat) \<and> (of_char c :: nat) \<le> 57)"

definition digitsValue :: "string \<Rightarrow> nat" where
  "digitsValue ds = foldl (\<lambda>n c. 10 * n + (of_char c - 48)) 0 ds"

definition Atoi :: "string \<Rightarrow> int option" where
  "Atoi s =
     (let neg = (case s of [] \<Rightarrow> False | c # _ \<Rightarrow> c = CHR ''-'');
          ds = (case s of [] \<Rightarrow> [] | c # r \<Rightarrow> if c = CHR ''-'' \<or> c = CHR ''+'' then r else s);
          v = (if neg then - int (digitsValue ds) else int (digitsValue ds))
      in if ds = [] \<or> \<not> list_all isDigit ds then None
         else if v < - (2 ^ 63) \<or> 2 ^ 63 \<le> v then None
         else Some v)"

text \<open>
  \<^verbatim>\<open>time.Duration(n) * time.Second\<close> is a 64-bit multiplication: it wraps around.
\<close>

definition durSeconds :: "int \<Rightarrow> int" where
  "durSeconds n = sint (word_of_int (n * 1000000000) :: 64 word)"

text \<open>
  \<^verbatim>\<open>time.Until(t)\<close> is \<open>t - now\<close>, saturated at the ends of the 64-bit range.
  \<^verbatim>\<open>time.Duration(time.Until(t).Seconds())\<close> goes through a float64 and truncates towards
  zero; the model takes the float division as exact.
\<close>

definition time_Until :: "env \<Rightarrow> time \<Rightarrow> int" where
  "time_Until e t =
     (let d = t - now e in
      if d < - (2 ^ 63) then - (2 ^ 63) else if 2 ^ 63 - 1 < d then 2 ^ 63 - 1 else d)"

definition truncDiv :: "int \<Rightarrow> int \<Rightarrow> int" where
  "truncDiv a b = sgn a * sgn b * (\<bar>a\<bar> div \<bar>b\<bar>)"

text \<open>
  The values of \<^verbatim>\<open>retryAfterInt\<close> and \<^verbatim>\<open>retryAfterTime\<close> after one attempt of the Abnormal
  Security executor. Both are declared inside the loop, so they start from zero at every
  attempt; a header that is neither a number nor an HTTP date leaves both at zero.
\<close>

definition abnormal_retryAfter :: "externals \<Rightarrow> string \<Rightarrow> int \<times> time" where
  "abnormal_retryAfter x ra =
     (if ra = [] then (0, zeroTime)
      else case Atoi ra of
             Some secs \<Rightarrow> (secs, zeroTime)
           | None \<Rightarrow>
               (case http_ParseTime x ra of
                  Some t \<Rightarrow> (0, t)
                | None \<Rightarrow> (0, zeroTime)))"

text \<open>The duration the Abnormal Security executor sleeps after a 429.\<close>

definition abnormal_backoffDuration :: "externals \<Rightarrow> string \<Rightarrow> env \<Rightarrow> int" where
  "abnormal_backoffDuration x ra e =
     (case abnormal_retryAfter x ra of
        (retryAfterInt, retryAfterTime) \<Rightarrow>
          if retryAfterInt \<noteq> 0 then durSeconds retryAfterInt
          else if \<not> IsZero retryAfterTime
            then durSeconds (truncDiv (time_Until e retryAfterTime) Second)
          else 60 * Second)"

definition abnormal_backoffWarning :: "externals \<Rightarrow> string \<Rightarrow> notice" where
  "abnormal_backoffWarning x ra =
     (case abnormal_retryAfter x ra of
        (retryAfterInt, retryAfterTime) \<Rightarrow>
          if retryAfterInt \<noteq> 0
            then Warning ''getEvents got 429 with Retry-After header, sleeping before retry''
          else if \<not> IsZero retryAfterTime
            then Warning ''getEvents got 429 with Retry-After header with time, sleeping before retry''
          else Warning ''getEvents got 429 without Retry-After header, sleeping 60s before retry'')"

subsection \<open>Abnormal Security: doWithRetry\<close>

text \<open>
  The response object after a successful decode, as its two methods show it:
  \<^verbatim>\<open>GetDicts()\<close> and \<^verbatim>\<open>HasNextPage()\<close>. A paged response type is named by the JSON field
  that holds its list (\<^verbatim>\<open>campaigns\<close>, \<^verbatim>\<open>results\<close>, \<^verbatim>\<open>auditLogs\<close>, ...); its
  \<^verbatim>\<open>HasNextPage\<close> is \<^verbatim>\<open>NextPageNumber != 0\<close>. The flat single response holds one event and
  has no next page.
\<close>

datatype AbnormalSecurityReponse = PagedResponse string | FlatSingleResponse

type_synonym response = "Dict list \<times> bool"

definition GetDicts :: "response \<Rightarrow> Dict list" where
  "GetDicts r = fst r"

definition HasNextPage :: "response \<Rightarrow> bool" where
  "HasNextPage r = snd r"

definition abnormal_decode :: "externals \<Rightarrow> AbnormalSecurityReponse \<Rightarrow> string \<Rightarrow> response option" where
  "abnormal_decode x rt body =
     (case rt of
        FlatSingleResponse \<Rightarrow>
          (case json_Unmarshal_dict x body of
             None \<Rightarrow> None
           | Some singleEvent \<Rightarrow> Some ([singleEvent], False))
      | PagedResponse field \<Rightarrow>
          (case json_Unmarshal_paged x field body of
             None \<Rightarrow> None
           | Some (ds, nextPageNumber) \<Rightarrow> Some (ds, nextPageNumber \<noteq> 0)))"

text \<open>
  The retry loop runs against the list of outcomes the vendor will give to the next
  attempts, and returns what is left of it. The value \<open>None\<close> says that the loop has not
  returned when the list ends: it is still waiting for an answer other than 429.
\<close>

fun abnormal_doWithRetry ::
  "externals \<Rightarrow> string \<Rightarrow> string \<Rightarrow> AbnormalSecurityReponse \<Rightarrow> http_outcome list \<Rightarrow> env
     \<Rightarrow> ((err + response) \<times> http_outcome list \<times> env) option" where
  "abnormal_doWithRetry x url apiName rt [] e =
     (if \<not> http_NewRequest_ok x url
        then Some (Inl (RequestError ''new request''), [],
                   notify (Error (RequestError ''new request'')) e)
      else None)"
| "abnormal_doWithRetry x url apiName rt (DoError m # rest) e =
     (if \<not> http_NewRequest_ok x url
        then Some (Inl (RequestError ''new request''), DoError m # rest,
                   notify (Error (RequestError ''new request'')) e)
      else Some (Inl (RequestError m), rest,
                 notify (Error (RequestError m)) (e\<lparr>requests := requests e @ [url]\<rparr>)))"
| "abnormal_doWithRetry x url apiName rt (Response status ra body # rest) e =
     (if \<not> http_NewRequest_ok x url
        then Some (Inl (RequestError ''new request''), Response status ra body # rest,
                   notify (Error (RequestError ''new request'')) e)
      else if status = 429 then
        (case sleepContext (abnormal_backoffDuration x ra e)
                (notify (abnormal_backoffWarning x ra) (e\<lparr>requests := requests e @ [url]\<rparr>)) of
           (Some er, e') \<Rightarrow> Some (Inl er, rest, e')
         | (None, e') \<Rightarrow> abnormal_doWithRetry x url apiName rt rest e')
      else if status = 401 then
        Some (Inl Unauthorized, rest, e\<lparr>requests := requests e @ [url]\<rparr>)
      else if status \<noteq> 200 then
        Some (Inl (Non200 status body), rest, e\<lparr>requests := requests e @ [url]\<rparr>)
      else
        (case abnormal_decode x rt body of
           None \<Rightarrow> Some (Inl InvalidJson, rest,
                         notify (Error InvalidJson) (e\<lparr>requests := requests e @ [url]\<rparr>))
         | Some r \<Rightarrow> Some (Inr r, rest, e\<lparr>requests := requests e @ [url]\<rparr>)))"

subsection \<open>Darktrace: doWithRetry\<close>

record API =
  Endpoint :: string
  Key :: string
  dt_idField :: string
  dt_timeField :: string
  timeFormat :: string

definition generateSignature ::
  "externals \<Rightarrow> DarktraceConfig \<Rightarrow> string \<Rightarrow> string \<Rightarrow> string option" where
  "generateSignature x c timeString fullURL =
     (case url_RequestURI x fullURL of
        None \<Rightarrow> None
      | Some uri \<Rightarrow>
          Some (hmac_sha1_hex x (PrivateToken c)
                  (uri @ [CHR 0x0A] @ PublicToken c @ [CHR 0x0A] @ timeString)))"

text \<open>
  The Darktrace executor never reads the \<^verbatim>\<open>Retry-After\<close> header: every 429 is followed by
  a sleep of 60 seconds.
\<close>

fun darktrace_doWithRetry ::
  "externals \<Rightarrow> DarktraceConfig \<Rightarrow> string \<Rightarrow> API \<Rightarrow> http_outcome list \<Rightarrow> env
     \<Rightarrow> ((err + Dict list) \<times> http_outcome list \<times> env) option" where
  "darktrace_doWithRetry x c url api [] e =
     (if \<not> http_NewRequest_ok x url
        then Some (Inl (RequestError ''new request''), [],
                   notify (Error (RequestError ''new request'')) e)
      else if generateSignature x c (time_Format x (timeFormat api) (now e)) url = None
        then Some (Inl (RequestError ''signature''), [], e)
      else None)"
| "darktrace_doWithRetry x c url api (DoError m # rest) e =
     (if \<not> http_NewRequest_ok x url
        then Some (Inl (RequestError ''new request''), DoError m # rest,
                   notify (Error (RequestError ''new request'')) e)
      else if generateSignature x c (time_Format x (timeFormat api) (now e)) url = None
        then Some (Inl (RequestError ''signature''), DoError m # rest, e)
      else Some (Inl (RequestError m), rest,
                 notify (Error (RequestError m)) (e\<lparr>requests := requests e @ [url]\<rparr>)))"
| "darktrace_doWithRetry x c url api (Response status ra body # rest) e =
     (if \<not> http_NewRequest_ok x url
        then Some (Inl (RequestError ''new request''), Response status ra body # rest,
                   notify (Error (RequestError ''new request'')) e)
      else if generateSignature x c (time_Format x (timeFormat api) (now e)) url = None
        then Some (Inl (RequestError ''signature''), Response status ra body # rest, e)
      else if status = 429 then
        (case sleepContext (60 * Second)
                (notify (Warning ''getEventsRequest got 429, sleeping 60s before retry'')
                   (e\<lparr>requests := requests e @ [url]\<rparr>)) of
           (Some er, e') \<Rightarrow> Some (Inl er, rest, e')
         | (None, e') \<Rightarrow> darktrace_doWithRetry x c url api rest e')
      else if status \<noteq> 200 then
        Some (Inl (Non200 status body), rest,
              notify (Error (Non200 status body)) (e\<lparr>requests := requests e @ [url]\<rparr>))
      else
        (case json_Unmarshal_list x body of
           None \<Rightarrow> Some (Inl InvalidJson, rest,
                         notify (Error InvalidJson) (e\<lparr>requests := requests e @ [url]\<rparr>))
         | Some ds \<Rightarrow> Some (Inr ds, rest, e\<lparr>requests := requests e @ [url]\<rparr>)))"

text \<open>
  A call that returns a decoded response has consumed at least one outcome. The page
  loop of the Abnormal Security walker terminates by this.
\<close>

lemma abnormal_doWithRetry_shorter:
  "abnormal_doWithRetry x url apiName rt script e = Some (Inr r, script', e')
     \<Longrightarrow> length script' < length script"
proof (induction x url apiName rt script e rule: abnormal_doWithRetry.induct)
  case (1 x url apiName rt e)
  then show ?case by (simp split: if_splits)
next
  case (2 x url apiName rt m rest e)
  then show ?case by (simp split: if_splits)
next
  case (3 x url apiName rt status ra body rest e)
  then show ?case
    by (force split: if_splits prod.splits option.splits)
qed

section \<open>The page walker\<close>

subsection \<open>Abnormal Security: getEvents\<close>

text \<open>
  A source descriptor. The \<^verbatim>\<open>dedupe\<close> field of the source is a reference to one of the
  adapter's maps: the model passes that map to the walker and takes it back. The four
  \<^verbatim>\<open>detailFn\<close> closures of the source differ only in the endpoint and the key of their
  own descriptor, so the model keeps whether the closure is there.
\<close>

record Api =
  key :: string
  endpoint :: string
  idField :: string
  timeField :: string
  responseType :: AbnormalSecurityReponse
  parameters :: "string list option"
  hasDetailFn :: bool

definition pageSize :: nat where "pageSize = 100"

text \<open>The 64-bit FNV-1a hash of \<^verbatim>\<open>hash/fnv\<close>, and \<^verbatim>\<open>%d\<close> of an unsigned number.\<close>

definition fnv64a :: "string \<Rightarrow> 64 word" where
  "fnv64a bs = foldl (\<lambda>h c. (h XOR word_of_nat (of_char c)) * 1099511628211)
                 14695981039346656037 bs"

fun decimal :: "nat \<Rightarrow> string" where
  "decimal n = (if n < 10 then [char_of (48 + n)]
                else decimal (n div 10) @ [char_of (48 + n mod 10)])"

declare decimal.simps [simp del]

definition showInt :: "int \<Rightarrow> string" where
  "showInt i = (if i < 0 then CHR ''-'' # decimal (nat (- i)) else decimal (nat i))"

definition abnormal_requestUrl ::
  "externals \<Rightarrow> string \<Rightarrow> Api \<Rightarrow> string list \<Rightarrow> time \<Rightarrow> nat \<Rightarrow> string" where
  "abnormal_requestUrl x pageUrl api params lastDetectionTime page =
     (let url0 = pageUrl @ ''?'';
          url1 = (if ''filter'' \<in> set params
                    then url0 @ ''filter='' @ timeField api @ '' gte ''
                           @ time_Format x RFC3339 lastDetectionTime
                  else if ''start'' \<in> set params
                    then url0 @ ''start='' @ time_Format x RFC3339 lastDetectionTime
                  else url0);
          url2 = (if ''pageNumber'' \<in> set params
                    then url1 @ ''&pageNumber='' @ decimal page else url1)
      in if ''pageSize'' \<in> set params then url2 @ ''&pageSize='' @ decimal pageSize else url2)"

text \<open>
  The identifier of an event, or the warning with which the event is dropped. The test
  \<^verbatim>\<open>event[api.idField] != ""\<close> compares an interface value with the string constant: it
  is false only when the value is the empty string itself. A missing key (the nil
  interface) passes the test and fails the type assertion that follows.
  (\<^verbatim>\<open>Write\<close> of a hash never returns an error.)
\<close>

definition abnormal_eventId :: "externals \<Rightarrow> Api \<Rightarrow> Dict \<Rightarrow> notice + string" where
  "abnormal_eventId x api event =
     (if dictIndex event (idField api) \<noteq> JString [] then
        (case asString (dictIndex event (idField api)) of
           None \<Rightarrow> Inl (Warning ''event contains an id that is not a string'')
         | Some rawID \<Rightarrow> Inr rawID)
      else
        (case json_Marshal x event of
           None \<Rightarrow> Inl (Warning ''event does not contain an id and could not be marshaled'')
         | Some b \<Rightarrow> Inr (decimal (unat (fnv64a b)))))"

text \<open>
  The body of the loop over the events of one page. The state is \<^verbatim>\<open>newItems\<close>,
  \<^verbatim>\<open>lastDetectionTime\<close>, the dedupe map and the environment.
\<close>

type_synonym walk_state = "Dict list \<times> time \<times> (string \<rightharpoonup> int) \<times> env"

definition abnormal_filterEvent ::
  "externals \<Rightarrow> Api \<Rightarrow> time \<Rightarrow> Dict \<Rightarrow> walk_state \<Rightarrow> walk_state" where
  "abnormal_filterEvent x api since event st =
     (case st of (newItems, lastDetectionTime, dedupe, e) \<Rightarrow>
        (case abnormal_eventId x api event of
           Inl w \<Rightarrow> (newItems, lastDetectionTime, dedupe, notify w e)
         | Inr ident \<Rightarrow>
             (case asString (dictIndex event (timeField api)) of
                None \<Rightarrow> (newItems, lastDetectionTime, dedupe,
                          notify (Warning ''event time not a string'') e)
              | Some timeStr \<Rightarrow>
                  if dedupe ident \<noteq> None then (newItems, lastDetectionTime, dedupe, e)
                  else
                    (case time_Parse x RFC3339 timeStr of
                       None \<Rightarrow> (newItems, lastDetectionTime, dedupe,
                                 notify (Error (InvalidTimestamp timeStr)) e)
                     | Some parsedTime \<Rightarrow>
                         if After parsedTime since then
                           (newItems @ [event],
                            (if After parsedTime lastDetectionTime then parsedTime
                             else lastDetectionTime),
                            dedupe(ident \<mapsto> Unix parsedTime), e)
                         else (newItems, lastDetectionTime, dedupe, e)))))"

fun abnormal_filterEvents ::
  "externals \<Rightarrow> Api \<Rightarrow> time \<Rightarrow> Dict list \<Rightarrow> walk_state \<Rightarrow> walk_state" where
  "abnormal_filterEvents x api since [] st = st"
| "abnormal_filterEvents x api since (event # events) st =
     abnormal_filterEvents x api since events (abnormal_filterEvent x api since event st)"

text \<open>
  The page loop. It requests page after page while the response has a next page; every
  request goes through the retry executor and consumes outcomes of the vendor's list.
\<close>

function abnormal_getEvents_loop ::
  "externals \<Rightarrow> string \<Rightarrow> Api \<Rightarrow> string list \<Rightarrow> time \<Rightarrow> nat \<Rightarrow> Dict list \<Rightarrow> time
     \<Rightarrow> (string \<rightharpoonup> int) \<Rightarrow> http_outcome list \<Rightarrow> env
     \<Rightarrow> ((err + Dict list) \<times> time \<times> (string \<rightharpoonup> int) \<times> http_outcome list \<times> env) option" where
  "abnormal_getEvents_loop x pageUrl api params since page allItems lastDetectionTime
       dedupe script e =
     (case abnormal_doWithRetry x
             (abnormal_requestUrl x pageUrl api params lastDetectionTime page)
             (key api) (responseType api) script (notify (Debug ''requesting from'') e) of
        None \<Rightarrow> None
      | Some (Inl er, script', e') \<Rightarrow> Some (Inl er, lastDetectionTime, dedupe, script', e')
      | Some (Inr response, script', e') \<Rightarrow>
          (case abnormal_filterEvents x api since (GetDicts response)
                  ([], lastDetectionTime, dedupe, e') of
             (newItems, lastDetectionTime', dedupe', e'') \<Rightarrow>
               if \<not> HasNextPage response
                 then Some (Inr (allItems @ newItems), lastDetectionTime', dedupe', script', e'')
               else abnormal_getEvents_loop x pageUrl api params since (page + 1)
                      (allItems @ newItems) lastDetectionTime' dedupe' script' e''))"
  by pat_completeness auto
termination
  by (relation "measure (\<lambda>(x, pageUrl, api, params, since, page, allItems,
                           lastDetectionTime, dedupe, script, e). length script)")
     (auto dest: abnormal_doWithRetry_shorter)

declare abnormal_getEvents_loop.simps [simp del]

text \<open>
  The deferred function of \<^verbatim>\<open>getEvents\<close>: it runs on every return, with the \<^verbatim>\<open>since\<close> the
  walk was called with.
\<close>

definition abnormal_prune :: "time \<Rightarrow> (string \<rightharpoonup> int) \<Rightarrow> (string \<rightharpoonup> int)" where
  "abnormal_prune since dedupe =
     (\<lambda>k. case dedupe k of
             None \<Rightarrow> None
           | Some v \<Rightarrow> if v < Unix since then None else Some v)"

text \<open>
  The body of \<^verbatim>\<open>getEvents\<close> up to its \<^verbatim>\<open>return\<close>, and \<^verbatim>\<open>getEvents\<close>: the body followed by
  the deferred pruning of the dedupe map.
\<close>

definition abnormal_getEvents_body ::
  "externals \<Rightarrow> string \<Rightarrow> Api \<Rightarrow> time \<Rightarrow> (string \<rightharpoonup> int) \<Rightarrow> http_outcome list \<Rightarrow> env
     \<Rightarrow> ((err + Dict list) \<times> time \<times> (string \<rightharpoonup> int) \<times> http_outcome list \<times> env) option" where
  "abnormal_getEvents_body x pageUrl api since dedupe script e =
     abnormal_getEvents_loop x pageUrl api
       (case parameters api of
          None \<Rightarrow> [''filter'', ''pageNumber'', ''pageSize'']
        | Some ps \<Rightarrow> ps)
       since 1 [] since dedupe script e"

definition abnormal_getEvents ::
  "externals \<Rightarrow> string \<Rightarrow> Api \<Rightarrow> time \<Rightarrow> (string \<rightharpoonup> int) \<Rightarrow> http_outcome list \<Rightarrow> env
     \<Rightarrow> ((err + Dict list) \<times> time \<times> (string \<rightharpoonup> int) \<times> http_outcome list \<times> env) option" where
  "abnormal_getEvents x pageUrl api since dedupe script e =
     (case abnormal_getEvents_body x pageUrl api since dedupe script e of
        None \<Rightarrow> None
      | Some (res, newSince, dedupe', script', e') \<Rightarrow>
          Some (res, newSince, abnormal_prune since dedupe', script', e'))"

subsection \<open>Darktrace: getEvents\<close>

text \<open>
  Here the watermark \<^verbatim>\<open>since\<close> is a number of milliseconds, and the walk is one request.
\<close>

definition darktrace_filterEvent ::
  "externals \<Rightarrow> API \<Rightarrow> int \<Rightarrow> Dict \<Rightarrow> Dict list \<times> int \<times> (string \<rightharpoonup> int) \<times> env
     \<Rightarrow> Dict list \<times> int \<times> (string \<rightharpoonup> int) \<times> env" where
  "darktrace_filterEvent x api since event st =
     (case st of (allItems, lastDetectionTime, dedupe, e) \<Rightarrow>
        (case asString (dictIndex event (dt_idField api)) of
           None \<Rightarrow> (allItems, lastDetectionTime, dedupe,
                     notify (Warning ''event id not a string'') e)
         | Some ident \<Rightarrow>
             (case asString (dictIndex event (dt_timeField api)) of
                None \<Rightarrow> (allItems, lastDetectionTime, dedupe,
                          notify (Warning ''event time not a string'') e)
              | Some timeStr \<Rightarrow>
                  if dedupe ident \<noteq> None then (allItems, lastDetectionTime, dedupe, e)
                  else
                    (case time_Parse x (timeFormat api) timeStr of
                       None \<Rightarrow> (allItems, lastDetectionTime, dedupe,
                                 notify (Error (InvalidTimestamp timeStr)) e)
                     | Some timeString \<Rightarrow>
                         if After timeString (time_UnixMilli since) then
                           (allItems @ [event],
                            (if After timeString (time_UnixMilli lastDetectionTime)
                               then UnixMilli timeString else lastDetectionTime),
                            dedupe(ident \<mapsto> UnixMilli (now e)), e)
                         else (allItems, lastDetectionTime, dedupe, e)))))"

fun darktrace_filterEvents ::
  "externals \<Rightarrow> API \<Rightarrow> int \<Rightarrow> Dict list \<Rightarrow> Dict list \<times> int \<times> (string \<rightharpoonup> int) \<times> env
     \<Rightarrow> Dict list \<times> int \<times> (string \<rightharpoonup> int) \<times> env" where
  "darktrace_filterEvents x api since [] st = st"
| "darktrace_filterEvents x api since (event # events) st =
     darktrace_filterEvents x api since events (darktrace_filterEvent x api since event st)"

definition darktrace_prune :: "int \<Rightarrow> (string \<rightharpoonup> int) \<Rightarrow> (string \<rightharpoonup> int)" where
  "darktrace_prune since dedupe =
     (\<lambda>k. case dedupe k of
             None \<Rightarrow> None
           | Some v \<Rightarrow>
               if v < UnixMilli (time_UnixMilli since + (- 1) * Minute) then None
               else Some v)"

definition darktrace_getEvents_body ::
  "externals \<Rightarrow> DarktraceConfig \<Rightarrow> string \<Rightarrow> int \<Rightarrow> API \<Rightarrow> (string \<rightharpoonup> int)
     \<Rightarrow> http_outcome list \<Rightarrow> env
     \<Rightarrow> ((err + Dict list) \<times> int \<times> (string \<rightharpoonup> int) \<times> http_outcome list \<times> env) option" where
  "darktrace_getEvents_body x c pageUrl since api dedupe script e =
     (case darktrace_doWithRetry x c
             (pageUrl @ ''&starttime='' @ showInt since @ ''&endtime=''
                @ showInt (UnixMilli (now e)))
             api script e of
        None \<Rightarrow> None
      | Some (Inl er, script', e') \<Rightarrow> Some (Inl er, 0, dedupe, script', e')
      | Some (Inr events, script', e') \<Rightarrow>
          (case darktrace_filterEvents x api since events ([], since, dedupe, e') of
             (allItems, lastDetectionTime, dedupe', e'') \<Rightarrow>
               Some (Inr allItems, lastDetectionTime, dedupe', script', e'')))"

definition darktrace_getEvents ::
  "externals \<Rightarrow> DarktraceConfig \<Rightarrow> string \<Rightarrow> int \<Rightarrow> API \<Rightarrow> (string \<rightharpoonup> int)
     \<Rightarrow> http_outcome list \<Rightarrow> env
     \<Rightarrow> ((err + Dict list) \<times> int \<times> (string \<rightharpoonup> int) \<times> http_outcome list \<times> env) option" where
  "darktrace_getEvents x c pageUrl since api dedupe script e =
     (case darktrace_getEvents_body x c pageUrl since api dedupe script e of
        None \<Rightarrow> None
      | Some (res, newSince, dedupe', script', e') \<Rightarrow>
          Some (res, newSince, darktrace_prune since dedupe', script', e'))"

section \<open>Delivery and shutdown\<close>

text \<open>
  \<^verbatim>\<open>Close\<close>: the body under \<^verbatim>\<open>once.Do\<close> cancels the context and marks the adapter stopped.
  (The errors of \<^verbatim>\<open>Drain\<close> and of the client's \<^verbatim>\<open>Close\<close> are returned to the caller;
  \<^verbatim>\<open>submitEvents\<close> discards them.)
\<close>

definition cancel :: "env \<Rightarrow> env" where
  "cancel e = e\<lparr>cancelAt := (case cancelAt e of
                                None \<Rightarrow> Some (now e)
                              | Some c \<Rightarrow> Some (min c (now e)))\<rparr>"

definition Close :: "env \<Rightarrow> env" where
  "Close e =
     (if stopped e then notify (Debug ''closing'') e
      else (cancel (notify (Debug ''closing'') e))\<lparr>stopped := True\<rparr>)"

definition Ship :: "DataMessage \<Rightarrow> int \<Rightarrow> env \<Rightarrow> ship_outcome \<times> env" where
  "Ship msg timeout e =
     (case ships e of
        [] \<Rightarrow> (ShipOk, e\<lparr>shipped := shipped e @ [(msg, timeout, ShipOk)]\<rparr>)
      | r # rs \<Rightarrow> (r, e\<lparr>ships := rs, shipped := shipped e @ [(msg, timeout, r)]\<rparr>))"

definition shipErrorText :: "ship_outcome \<Rightarrow> string" where
  "shipErrorText r = (case r of ShipFailed m \<Rightarrow> m | _ \<Rightarrow> ''buffer full'')"

definition dataMessage :: "Dict \<Rightarrow> env \<Rightarrow> DataMessage" where
  "dataMessage item e =
     \<lparr>JsonPayload = item,
      TimestampMs = unat (word_of_int (truncDiv (now e) 1000000) :: 64 word)\<rparr>"

text \<open>
  \<^verbatim>\<open>submitEvents\<close> has the same body in both adapters. An error of the first \<^verbatim>\<open>Ship\<close> that
  is not \<^verbatim>\<open>ErrorBufferFull\<close> falls through both \<^verbatim>\<open>if\<close>s: the loop goes on to the next
  event.
\<close>

fun submitEvents :: "Dict list \<Rightarrow> env \<Rightarrow> env" where
  "submitEvents [] e = e"
| "submitEvents (item # events) e =
     (case Ship (dataMessage item e) (10 * Second) e of
        (ShipOk, e1) \<Rightarrow> submitEvents events e1
      | (ShipFailed m, e1) \<Rightarrow> submitEvents events e1
      | (ErrorBufferFull, e1) \<Rightarrow>
          (case Ship (dataMessage item e) (1 * Hour)
                  (notify (Warning ''stream falling behind'') e1) of
             (ShipOk, e2) \<Rightarrow> submitEvents events e2
           | (ErrorBufferFull, e2) \<Rightarrow>
               Close (notify (Error (ShipError (shipErrorText ErrorBufferFull))) e2)
           | (ShipFailed m, e2) \<Rightarrow>
               Close (notify (Error (ShipError (shipErrorText (ShipFailed m)))) e2)))"

section \<open>The poll cycle scheduler\<close>

subsection \<open>Abnormal Security: one cycle\<close>

text \<open>
  The detail fetch of one source: one request per admitted event that has a string
  identifier, through the retry executor, with the flat single response.
\<close>

fun abnormal_details ::
  "externals \<Rightarrow> AbnormalSecurityConfig \<Rightarrow> Api \<Rightarrow> Dict list \<Rightarrow> Dict list \<Rightarrow> http_outcome list
     \<Rightarrow> env \<Rightarrow> (Dict list \<times> http_outcome list \<times> env) option" where
  "abnormal_details x c api [] allItems script e = Some (allItems, script, e)"
| "abnormal_details x c api (event # items) allItems script e =
     (case map_of event (idField api) of
        None \<Rightarrow> abnormal_details x c api items allItems script
                  (notify (Warning ''no id field on event'') e)
      | Some rawID \<Rightarrow>
          (case asString rawID of
             None \<Rightarrow> abnormal_details x c api items allItems script
                       (notify (Warning ''id field is not a string on event'') e)
           | Some ident \<Rightarrow>
               (case abnormal_doWithRetry x (BaseURL c @ ''/'' @ endpoint api @ ''/'' @ ident)
                       (key api) FlatSingleResponse script e of
                  None \<Rightarrow> None
                | Some (Inl er, script', e') \<Rightarrow>
                    abnormal_details x c api items allItems script'
                      (notify (Error (DetailsFetchFailed (key api) er)) e')
                | Some (Inr response, script', e') \<Rightarrow>
                    abnormal_details x c api items (allItems @ GetDicts response)
                      script' e')))"

text \<open>
  One pass over the sources. The state is the watermark map \<^verbatim>\<open>since\<close>, the adapter's
  dedupe maps (by source key) and \<^verbatim>\<open>allItems\<close>. On an error of the walk the loop
  \<^verbatim>\<open>continue\<close>s before \<^verbatim>\<open>since[api.key] = newSince\<close>: the returned watermark is dropped.
  The dedupe map was changed in place by the walk, error or not.
\<close>

fun abnormal_cycle ::
  "externals \<Rightarrow> AbnormalSecurityConfig \<Rightarrow> Api list \<Rightarrow> (string \<Rightarrow> time)
     \<Rightarrow> (string \<Rightarrow> (string \<rightharpoonup> int)) \<Rightarrow> Dict list \<Rightarrow> http_outcome list \<Rightarrow> env
     \<Rightarrow> ((string \<Rightarrow> time) \<times> (string \<Rightarrow> (string \<rightharpoonup> int)) \<times> Dict list
          \<times> http_outcome list \<times> env) option" where
  "abnormal_cycle x c [] since dd allItems script e = Some (since, dd, allItems, script, e)"
| "abnormal_cycle x c (api # apis) since dd allItems script e =
     (case abnormal_getEvents x (BaseURL c @ endpoint api) api (since (key api))
             (dd (key api)) script e of
        None \<Rightarrow> None
      | Some (Inl er, newSince, dedupe', script', e') \<Rightarrow>
          abnormal_cycle x c apis since (dd(key api := dedupe')) allItems script'
            (notify (Error (FetchFailed (key api) er)) e')
      | Some (Inr items, newSince, dedupe', script', e') \<Rightarrow>
          if hasDetailFn api then
            (case abnormal_details x c api items (allItems @ items) script' e' of
               None \<Rightarrow> None
             | Some (allItems', script'', e'') \<Rightarrow>
                 abnormal_cycle x c apis (since(key api := newSince))
                   (dd(key api := dedupe')) allItems' script'' e'')
          else
            abnormal_cycle x c apis (since(key api := newSince))
              (dd(key api := dedupe')) (allItems @ items) script' e')"

definition abnormal_tick ::
  "externals \<Rightarrow> AbnormalSecurityConfig \<Rightarrow> Api list \<Rightarrow> (string \<Rightarrow> time)
     \<Rightarrow> (string \<Rightarrow> (string \<rightharpoonup> int)) \<Rightarrow> http_outcome list \<Rightarrow> env
     \<Rightarrow> ((string \<Rightarrow> time) \<times> (string \<Rightarrow> (string \<rightharpoonup> int)) \<times> http_outcome list \<times> env) option" where
  "abnormal_tick x c apis since dd script e =
     (case abnormal_cycle x c apis since dd [] script e of
        None \<Rightarrow> None
      | Some (since', dd', allItems, script', e') \<Rightarrow>
          Some (since', dd', script',
                if allItems \<noteq> [] then submitEvents allItems e' else e'))"

subsection \<open>Darktrace: one cycle\<close>

fun darktrace_cycle ::
  "externals \<Rightarrow> DarktraceConfig \<Rightarrow> API list \<Rightarrow> (string \<Rightarrow> int)
     \<Rightarrow> (string \<Rightarrow> (string \<rightharpoonup> int)) \<Rightarrow> Dict list \<Rightarrow> http_outcome list \<Rightarrow> env
     \<Rightarrow> ((string \<Rightarrow> int) \<times> (string \<Rightarrow> (string \<rightharpoonup> int)) \<times> Dict list
          \<times> http_outcome list \<times> env) option" where
  "darktrace_cycle x c [] since dd allItems script e = Some (since, dd, allItems, script, e)"
| "darktrace_cycle x c (api # apis) since dd allItems script e =
     (case darktrace_getEvents x c (Url c @ Endpoint api) (since (Key api)) api
             (dd (Key api)) script e of
        None \<Rightarrow> None
      | Some (Inl er, newSince, dedupe', script', e') \<Rightarrow>
          darktrace_cycle x c apis since (dd(Key api := dedupe')) allItems script'
            (notify (Error (FetchFailed (Key api) er)) e')
      | Some (Inr items, newSince, dedupe', script', e') \<Rightarrow>
          darktrace_cycle x c apis (since(Key api := newSince))
            (dd(Key api := dedupe')) (allItems @ items) script' e')"

definition darktrace_tick ::
  "externals \<Rightarrow> DarktraceConfig \<Rightarrow> API list \<Rightarrow> (string \<Rightarrow> int)
     \<Rightarrow> (string \<Rightarrow> (string \<rightharpoonup> int)) \<Rightarrow> http_outcome list \<Rightarrow> env
     \<Rightarrow> ((string \<Rightarrow> int) \<times> (string \<Rightarrow> (string \<rightharpoonup> int)) \<times> http_outcome list \<times> env) option" where
  "darktrace_tick x c apis since dd script e =
     (case darktrace_cycle x c apis since dd [] script e of
        None \<Rightarrow> None
      | Some (since', dd', allItems, script', e') \<Rightarrow>
          Some (since', dd', script',
                if allItems \<noteq> [] then submitEvents allItems e' else e'))"

subsection \<open>The scheduler loops\<close>

text \<open>
  The \<^verbatim>\<open>select\<close> of the scheduler loop waits for the context or for the ticker. The
  model runs the loop against the list of the cases the \<^verbatim>\<open>select\<close> takes, in order:
  \<open>CtxDone\<close> (the context is cancelled and that case is taken) or \<open>Tick t\<close> (the ticker
  fires and is taken, with the clock at \<open>t\<close>). The value \<open>Some\<close> says that \<^verbatim>\<open>fetchEvents\<close>
  has returned; \<open>None\<close> that it is still in its loop when the list ends.
\<close>

datatype select_case = CtxDone | Tick time

definition tickAt :: "time \<Rightarrow> env \<Rightarrow> env" where
  "tickAt t e = e\<lparr>now := max (now e) t\<rparr>"

text \<open>
  Abnormal Security: the \<^verbatim>\<open>ctx.Done()\<close> case logs and has no \<^verbatim>\<open>return\<close>, so the \<^verbatim>\<open>for\<close>
  loop goes round again.
\<close>

fun abnormal_fetchEvents_loop ::
  "externals \<Rightarrow> AbnormalSecurityConfig \<Rightarrow> Api list \<Rightarrow> select_case list \<Rightarrow> (string \<Rightarrow> time)
     \<Rightarrow> (string \<Rightarrow> (string \<rightharpoonup> int)) \<Rightarrow> http_outcome list \<Rightarrow> env
     \<Rightarrow> ((string \<Rightarrow> time) \<times> (string \<Rightarrow> (string \<rightharpoonup> int)) \<times> http_outcome list \<times> env) option" where
  "abnormal_fetchEvents_loop x c apis [] since dd script e = None"
| "abnormal_fetchEvents_loop x c apis (CtxDone # sel) since dd script e =
     abnormal_fetchEvents_loop x c apis sel since dd script
       (notify (Debug ''fetching of events exiting'') (cancel e))"
| "abnormal_fetchEvents_loop x c apis (Tick t # sel) since dd script e =
     (case abnormal_tick x c apis since dd script (tickAt t e) of
        None \<Rightarrow> None
      | Some (since', dd', script', e') \<Rightarrow>
          abnormal_fetchEvents_loop x c apis sel since' dd' script' e')"

text \<open>Darktrace: the \<^verbatim>\<open>ctx.Done()\<close> case logs and returns.\<close>

fun darktrace_fetchEvents_loop ::
  "externals \<Rightarrow> DarktraceConfig \<Rightarrow> API list \<Rightarrow> select_case list \<Rightarrow> (string \<Rightarrow> int)
     \<Rightarrow> (string \<Rightarrow> (string \<rightharpoonup> int)) \<Rightarrow> http_outcome list \<Rightarrow> env
     \<Rightarrow> ((string \<Rightarrow> int) \<times> (string \<Rightarrow> (string \<rightharpoonup> int)) \<times> http_outcome list \<times> env) option" where
  "darktrace_fetchEvents_loop x c apis [] since dd script e = None"
| "darktrace_fetchEvents_loop x c apis (CtxDone # sel) since dd script e =
     Some (since, dd, script, notify (Debug ''fetching of events exiting'') (cancel e))"
| "darktrace_fetchEvents_loop x c apis (Tick t # sel) since dd script e =
     (case darktrace_tick x c apis since dd script (tickAt t e) of
        None \<Rightarrow> None
      | Some (since', dd', script', e') \<Rightarrow>
          darktrace_fetchEvents_loop x c apis sel since' dd' script' e')"

text \<open>The sources of each adapter, and \<^verbatim>\<open>fetchEvents\<close> with its initial watermarks.\<close>

definition abnormal_apis :: "Api list" where
  "abnormal_apis =
     [\<lparr>key = ''abuseCampaigns'', endpoint = ''/abusecampaigns'', idField = ''campaignId'',
       timeField = ''receivedTime'', responseType = PagedResponse ''campaigns'',
       parameters = None, hasDetailFn = True\<rparr>,
      \<lparr>key = ''abuseCampaignsNotAnalyzed'', endpoint = ''/abuse_mailbox/not_analyzed'',
       idField = ''abx_message_id'', timeField = ''reported_datetime'',
       responseType = PagedResponse ''results'', parameters = Some [''start''],
       hasDetailFn = False\<rparr>,
      \<lparr>key = ''auditLogs'', endpoint = ''/auditlogs'', idField = [],
       timeField = ''timestamp'', responseType = PagedResponse ''auditLogs'',
       parameters = None, hasDetailFn = False\<rparr>,
      \<lparr>key = ''cases'', endpoint = ''/cases'', idField = ''caseId'',
       timeField = ''lastModifiedTime'', responseType = PagedResponse ''cases'',
       parameters = None, hasDetailFn = True\<rparr>,
      \<lparr>key = ''threats'', endpoint = ''/threats'', idField = ''threatId'',
       timeField = ''receivedTime'', responseType = PagedResponse ''threats'',
       parameters = None, hasDetailFn = True\<rparr>,
      \<lparr>key = ''vendorCases'', endpoint = ''/vendor-cases'', idField = ''vendorCaseId'',
       timeField = ''lastModifiedTime'', responseType = PagedResponse ''vendorCases'',
       parameters = None, hasDetailFn = True\<rparr>]"

definition queryInterval :: int where "queryInterval = 60"

definition abnormal_fetchEvents ::
  "externals \<Rightarrow> AbnormalSecurityAdapter \<Rightarrow> select_case list \<Rightarrow> http_outcome list \<Rightarrow> env
     \<Rightarrow> ((string \<Rightarrow> time) \<times> (string \<Rightarrow> (string \<rightharpoonup> int)) \<times> http_outcome list \<times> env) option" where
  "abnormal_fetchEvents x a sel script e =
     abnormal_fetchEvents_loop x (conf a) abnormal_apis sel
       (\<lambda>k. now e + (- 1) * queryInterval * Second) (dedupes a) script e"

definition darktrace_APIs :: "API list" where
  "darktrace_APIs =
     [\<lparr>Endpoint = ''/aianalyst/incidentevents?includeacknowledged=true&includeincidenteventurl=true'',
       Key = ''aiAnalyst'', dt_idField = ''id'', dt_timeField = ''detectiontime'',
       timeFormat = ''20060102T150405''\<rparr>,
      \<lparr>Endpoint = ''/modelbreaches?expandenums=true&historicmodelonly=true&includeacknowledged=true&includebreachurl=true'',
       Key = ''modelBreaches'', dt_idField = ''id'', dt_timeField = ''detectiontime'',
       timeFormat = ''20060102T150405''\<rparr>]"

definition darktrace_fetchEvents ::
  "externals \<Rightarrow> DarkTraceAdapter \<Rightarrow> select_case list \<Rightarrow> http_outcome list \<Rightarrow> env
     \<Rightarrow> ((string \<Rightarrow> int) \<times> (string \<Rightarrow> (string \<rightharpoonup> int)) \<times> http_outcome list \<times> env) option" where
  "darktrace_fetchEvents x a sel script e =
     darktrace_fetchEvents_loop x (dt_conf a) darktrace_APIs sel
       (\<lambda>k. UnixMilli (now e)) (dt_dedupes a) script e"

subsection \<open>Views of the delivery log\<close>

text \<open>
  The \<^verbatim>\<open>Ship\<close> calls made between two states, the outcome the sink gives to the next
  call, and the state after that call.
\<close>

definition shippedSince :: "env \<Rightarrow> env \<Rightarrow> (DataMessage \<times> int \<times> ship_outcome) list" where
  "shippedSince e e' = drop (length (shipped e)) (shipped e')"

definition firstShip :: "env \<Rightarrow> ship_outcome" where
  "firstShip e = (case ships e of [] \<Rightarrow> ShipOk | r # _ \<Rightarrow> r)"

definition afterShip :: "DataMessage \<Rightarrow> int \<Rightarrow> env \<Rightarrow> env" where
  "afterShip msg t e = e\<lparr>ships := tl (ships e), shipped := shipped e @ [(msg, t, firstShip e)]\<rparr>"

subsection \<open>Views of the walker's state\<close>

text \<open>
  The components of the state of the filter loop, and the occurrence time the walker
  reads from an event: the string under the source's time field, parsed with the
  source's layout.
\<close>

definition st_items :: "'a \<times> 'b \<times> 'c \<times> 'd \<Rightarrow> 'a" where "st_items st = fst st"
definition st_last :: "'a \<times> 'b \<times> 'c \<times> 'd \<Rightarrow> 'b" where "st_last st = fst (snd st)"
definition st_dedupe :: "'a \<times> 'b \<times> 'c \<times> 'd \<Rightarrow> 'c" where "st_dedupe st = fst (snd (snd st))"
definition st_env :: "'a \<times> 'b \<times> 'c \<times> 'd \<Rightarrow> 'd" where "st_env st = snd (snd (snd st))"

definition abnormal_occurrence :: "externals \<Rightarrow> Api \<Rightarrow> Dict \<Rightarrow> time option" where
  "abnormal_occurrence x api event =
     (case asString (dictIndex event (timeField api)) of
        None \<Rightarrow> None
      | Some timeStr \<Rightarrow> time_Parse x RFC3339 timeStr)"

definition darktrace_occurrence :: "externals \<Rightarrow> API \<Rightarrow> Dict \<Rightarrow> time option" where
  "darktrace_occurrence x api event =
     (case asString (dictIndex event (dt_timeField api)) of
        None \<Rightarrow> None
      | Some timeStr \<Rightarrow> time_Parse x (timeFormat api) timeStr)"

subsection \<open>Views of a walk\<close>

text \<open>
  The occurrence times of a list of admitted events, in the unit of the adapter's
  watermark (Darktrace: milliseconds), and the projections of the result of a walk.
\<close>

definition abnormal_times :: "externals \<Rightarrow> Api \<Rightarrow> Dict list \<Rightarrow> time list" where
  "abnormal_times x api items = map (\<lambda>ev. the (abnormal_occurrence x api ev)) items"

definition darktrace_times :: "externals \<Rightarrow> API \<Rightarrow> Dict list \<Rightarrow> int list" where
  "darktrace_times x api items =
     map (\<lambda>ev. UnixMilli (the (darktrace_occurrence x api ev))) items"

definition walk_result ::
  "('r \<times> 't \<times> 'd \<times> 's \<times> 'e) option \<Rightarrow> ('r \<times> 't) option" where
  "walk_result w = map_option (\<lambda>(res, newSince, dedupe, script, e). (res, newSince)) w"

definition walk_dedupe ::
  "('r \<times> 't \<times> 'd \<times> 's \<times> 'e) option \<Rightarrow> 'd option" where
  "walk_dedupe w = map_option (\<lambda>(res, newSince, dedupe, script, e). dedupe) w"

definition cycle_watermark ::
  "string \<Rightarrow> ((string \<Rightarrow> 't) \<times> 'r) option \<Rightarrow> 't option" where
  "cycle_watermark k c = map_option (\<lambda>(since', rest). since' k) c"

subsection \<open>Views of a call of the executor\<close>




definition walk_env ::
  "('r \<times> 't \<times> 'd \<times> 's \<times> 'e) option \<Rightarrow> 'e option" where
  "walk_env w = map_option (\<lambda>(res, newSince, dedupe, script, e). e) w"

subsection \<open>The admission rule\<close>

text \<open>
  The identifier the walker works out for an event, when it works one out: in the
  Abnormal Security walker the result of the identifier step, in the Darktrace walker
  the string under the source's identifier field.
\<close>

definition abnormal_ident :: "externals \<Rightarrow> Api \<Rightarrow> Dict \<Rightarrow> string option" where
  "abnormal_ident x api event =
     (case abnormal_eventId x api event of Inl w \<Rightarrow> None | Inr ident \<Rightarrow> Some ident)"

definition darktrace_ident :: "API \<Rightarrow> Dict \<Rightarrow> string option" where
  "darktrace_ident api event = asString (dictIndex event (dt_idField api))"

text \<open>
  The admission rule in the words of the specification, to be compared with the filter
  loops of the two walkers. The events are taken in order. An event that has an
  identifier and an occurrence time is admitted exactly when its identifier is not
  among the identifiers seen and its occurrence time is strictly after the watermark;
  the identifier of an admitted event is seen from then on. An event without an
  identifier or without an occurrence time is not admitted.
\<close>

fun admitted_by_rule ::
  "(Dict \<Rightarrow> string option) \<Rightarrow> (Dict \<Rightarrow> time option) \<Rightarrow> time \<Rightarrow> Dict list \<Rightarrow> string set
     \<Rightarrow> Dict list" where
  "admitted_by_rule idOf timeOf watermark [] seen = []"
| "admitted_by_rule idOf timeOf watermark (event # events) seen =
     (case idOf event of
        None \<Rightarrow> admitted_by_rule idOf timeOf watermark events seen
      | Some ident \<Rightarrow>
          (case timeOf event of
             None \<Rightarrow> admitted_by_rule idOf timeOf watermark events seen
           | Some t \<Rightarrow>
               if ident \<notin> seen \<and> watermark < t
                 then event # admitted_by_rule idOf timeOf watermark events (insert ident seen)
               else admitted_by_rule idOf timeOf watermark events seen))"

text \<open>The identifiers of the events of a list.\<close>

definition idents_of :: "(Dict \<Rightarrow> string option) \<Rightarrow> Dict list \<Rightarrow> string set" where
  "idents_of idOf events = set (List.map_filter idOf events)"

section \<open>Concrete inputs\<close>

text \<open>Configurations: one without a base URL, one without a token, one without a URL.\<close>

definition cfgNoBaseURL :: AbnormalSecurityConfig where
  "cfgNoBaseURL = \<lparr>ClientOptions = \<lparr>validateError = None, newClientError = None\<rparr>,
                    AccessToken = ''token'', BaseURL = []\<rparr>"

definition cfgNoToken :: AbnormalSecurityConfig where
  "cfgNoToken = \<lparr>ClientOptions = \<lparr>validateError = None, newClientError = None\<rparr>,
                  AccessToken = [], BaseURL = ''https://example.test/v1''\<rparr>"

definition dtCfgNoUrl :: DarktraceConfig where
  "dtCfgNoUrl = \<lparr>dt_ClientOptions = \<lparr>validateError = None, newClientError = None\<rparr>,
                  Url = [], PublicToken = ''pub'', PrivateToken = ''priv''\<rparr>"

text \<open>An environment in which nothing has happened yet, and two events.\<close>

definition env0 :: env where
  "env0 = \<lparr>now = 1700000000 * Second, cancelAt = None, requests = [], slept = [],
            notices = [], ships = [], shipped = [], stopped = False\<rparr>"

definition evA :: Dict where
  "evA = [(''id'', JString ''A''), (''detectiontime'', JString ''1700000010'')]"

definition evB :: Dict where
  "evB = [(''id'', JString ''B''), (''detectiontime'', JString ''1700000020'')]"

text \<open>
  A concrete instance of the external functions. A time is written as its number of
  seconds in decimal digits; an HTTP date as \<open>@\<close> and such a number; a body is one of a
  few named pages.
\<close>

definition demoParse :: "string \<Rightarrow> time option" where
  "demoParse s = (if s \<noteq> [] \<and> list_all isDigit s then Some (int (digitsValue s) * Second)
                  else None)"

definition threat1 :: Dict where
  "threat1 = [(''threatId'', JString ''T1''), (''receivedTime'', JString ''1699999500'')]"

definition threat2 :: Dict where
  "threat2 = [(''threatId'', JString ''T2''), (''receivedTime'', JString ''1699999600'')]"

definition audit1 :: Dict where
  "audit1 = [(''timestamp'', JString ''1699999500''), (''action'', JString ''login'')]"

definition demoBody :: "string \<Rightarrow> (Dict list \<times> int) option" where
  "demoBody body =
     (if body = ''page1'' then Some ([threat1], 2)
      else if body = ''page2'' then Some ([threat2], 0)
      else if body = ''audit'' then Some ([audit1], 0)
      else if body = ''A'' then Some ([evA], 0)
      else if body = ''B'' then Some ([evB], 0)
      else if body = ''empty'' then Some ([], 0)
      else None)"

definition demoExternals :: externals where
  "demoExternals =
     \<lparr>json_Marshal = (\<lambda>event. Some (concat (map fst event))),
      json_Unmarshal_paged = (\<lambda>field body. demoBody body),
      json_Unmarshal_dict = (\<lambda>body. None),
      json_Unmarshal_list = (\<lambda>body. map_option fst (demoBody body)),
      time_Parse = (\<lambda>layout s. demoParse s),
      time_Format = (\<lambda>layout t. showInt (Unix t)),
      http_ParseTime = (\<lambda>s. case s of [] \<Rightarrow> None | c # r \<Rightarrow> if c = CHR ''@'' then demoParse r else None),
      http_NewRequest_ok = (\<lambda>url. True),
      url_RequestURI = (\<lambda>url. Some url),
      hmac_sha1_hex = (\<lambda>k payload. ''signature'')\<rparr>"

definition threatsApi :: Api where
  "threatsApi = abnormal_apis ! 4"

definition auditLogsApi :: Api where
  "auditLogsApi = abnormal_apis ! 2"

definition aiAnalystApi :: API where
  "aiAnalystApi = darktrace_APIs ! 0"

text \<open>Two valid configurations.\<close>

definition cfgDemo :: AbnormalSecurityConfig where
  "cfgDemo = \<lparr>ClientOptions = \<lparr>validateError = None, newClientError = None\<rparr>,
               AccessToken = ''token'', BaseURL = ''https://example.test/v1''\<rparr>"

definition dtCfgDemo :: DarktraceConfig where
  "dtCfgDemo = \<lparr>dt_ClientOptions = \<lparr>validateError = None, newClientError = None\<rparr>,
                 Url = ''https://dt.example.test'', PublicToken = ''pub'',
                 PrivateToken = ''priv''\<rparr>"

definition modelBreachesApi :: API where
  "modelBreachesApi = darktrace_APIs ! 1"


text \<open>The audit event with a key that is the empty string, holding the empty string.\<close>

definition audit1_emptyId :: Dict where
  "audit1_emptyId = ([], JString []) # audit1"

text \<open>A threat received at the instant 1699999000, the watermark of the walks below.\<close>

definition threat0 :: Dict where
  "threat0 = [(''threatId'', JString ''T0''), (''receivedTime'', JString ''1699999000'')]"

section \<open>Construction and missing configuration\<close>

text \<open>
  Claim C8 says that construction fails whenever a credential or the base URL is empty.
  For the base URL of the Abnormal Security adapter it does not: \<^verbatim>\<open>Validate\<close> writes the
  default base URL into the configuration and returns nil, the adapter is built and its
  polling task is started.
\<close>

theorem missing_base_url_is_defaulted:
  "BaseURL cfgNoBaseURL = []
   \<and> \<not> isl (fst (NewAbnormalSecurityAdapter cfgNoBaseURL))
   \<and> snd (NewAbnormalSecurityAdapter cfgNoBaseURL)
   \<and> BaseURL (conf (projr (fst (NewAbnormalSecurityAdapter cfgNoBaseURL)))) = defaultBaseURL"
  by (simp add: cfgNoBaseURL_def NewAbnormalSecurityAdapter_def abnormal_Validate_def)

text \<open>
  Claim C8, amended: when the access token (Abnormal Security) or the URL, the public
  token or the private token (Darktrace) is empty, construction returns an error and
  the polling task is not started. An empty Abnormal Security base URL is not an error:
  with valid client options and a token, the adapter is built with the default base URL
  and its polling task is started.
\<close>

theorem construction_fails_without_credentials:
  "(AccessToken c = [] \<longrightarrow> (\<exists>er. NewAbnormalSecurityAdapter c = (Inl er, False)))
   \<and> (Url d = [] \<or> PublicToken d = [] \<or> PrivateToken d = []
        \<longrightarrow> (\<exists>er. NewDarkTraceAdapter d = (Inl er, False)))
   \<and> (validateError (ClientOptions c') = None \<and> newClientError (ClientOptions c') = None
        \<and> AccessToken c' \<noteq> [] \<and> BaseURL c' = []
        \<longrightarrow> NewAbnormalSecurityAdapter c'
              = (Inr \<lparr>conf = c'\<lparr>BaseURL := defaultBaseURL\<rparr>, dedupes = (\<lambda>_. Map.empty)\<rparr>, True))"
  by (auto simp: NewAbnormalSecurityAdapter_def abnormal_Validate_def
        NewDarkTraceAdapter_def darktrace_Validate_def split: option.splits)

theorem construction_fails_without_credentials_witness:
  "AccessToken cfgNoToken = [] \<and> Url dtCfgNoUrl = []
   \<and> AccessToken cfgNoBaseURL \<noteq> [] \<and> BaseURL cfgNoBaseURL = []
   \<and> NewAbnormalSecurityAdapter cfgNoToken = (Inl MissingAccessToken, False)
   \<and> NewDarkTraceAdapter dtCfgNoUrl = (Inl MissingUrl, False)
   \<and> NewAbnormalSecurityAdapter cfgNoBaseURL
       = (Inr \<lparr>conf = cfgNoBaseURL\<lparr>BaseURL := defaultBaseURL\<rparr>,
               dedupes = (\<lambda>_. Map.empty)\<rparr>, True)"
  using construction_fails_without_credentials [of cfgNoToken dtCfgNoUrl cfgNoBaseURL]
  by (simp add: cfgNoToken_def dtCfgNoUrl_def cfgNoBaseURL_def
        NewAbnormalSecurityAdapter_def abnormal_Validate_def
        NewDarkTraceAdapter_def darktrace_Validate_def)

section \<open>Delivery under backpressure\<close>

lemma Ship_eq: "Ship msg t e = (firstShip e, afterShip msg t e)"
  by (cases "ships e") (simp_all add: Ship_def firstShip_def afterShip_def)

lemma stopped_Close: "stopped (Close e)"
  by (simp add: Close_def notify_def cancel_def)

lemma shipped_Close: "shipped (Close e) = shipped e"
  by (simp add: Close_def notify_def cancel_def)

lemma shipped_notify: "shipped (notify n e) = shipped e"
  by (simp add: notify_def)

lemma stopped_notify: "stopped (notify n e) = stopped e"
  by (simp add: notify_def)

lemma shipped_afterShip: "shipped (afterShip msg t e) = shipped e @ [(msg, t, firstShip e)]"
  by (simp add: afterShip_def)

lemma stopped_afterShip: "stopped (afterShip msg t e) = stopped e"
  by (simp add: afterShip_def)

lemma submitEvents_step:
  "submitEvents (item # events) e =
     (let e1 = afterShip (dataMessage item e) (10 * Second) e in
      if firstShip e \<noteq> ErrorBufferFull then submitEvents events e1
      else let w = notify (Warning ''stream falling behind'') e1;
               e2 = afterShip (dataMessage item e) Hour w in
           if firstShip w = ShipOk then submitEvents events e2
           else Close (notify (Error (ShipError (shipErrorText (firstShip w)))) e2))"
  by (simp add: Ship_eq Let_def split: ship_outcome.splits)

lemma submitEvents_shipped_prefix:
  "\<exists>suf. shipped (submitEvents events e) = shipped e @ suf"
proof (induction events arbitrary: e)
  case Nil
  then show ?case by simp
next
  case (Cons item events)
  let ?e1 = "afterShip (dataMessage item e) (10 * Second) e"
  let ?w = "notify (Warning ''stream falling behind'') ?e1"
  let ?e2 = "afterShip (dataMessage item e) Hour ?w"
  obtain s1 where s1: "shipped (submitEvents events ?e1) = shipped ?e1 @ s1"
    using Cons.IH by blast
  obtain s2 where s2: "shipped (submitEvents events ?e2) = shipped ?e2 @ s2"
    using Cons.IH by blast
  show ?case
    unfolding submitEvents_step Let_def
    by (simp add: s1 s2 shipped_afterShip shipped_notify shipped_Close del: submitEvents.simps)
qed

lemma submitEvents_stops_only_after_buffer_full:
  "\<not> stopped e \<Longrightarrow> stopped (submitEvents events e) \<Longrightarrow>
     \<exists>pre msg r. r \<noteq> ShipOk \<and> JsonPayload msg \<in> set events
       \<and> shippedSince e (submitEvents events e)
           = pre @ [(msg, 10 * Second, ErrorBufferFull), (msg, Hour, r)]"
proof (induction events arbitrary: e)
  case Nil
  then show ?case by simp
next
  case (Cons item events)
  let ?m = "dataMessage item e"
  let ?e1 = "afterShip ?m (10 * Second) e"
  let ?w = "notify (Warning ''stream falling behind'') ?e1"
  let ?e2 = "afterShip ?m Hour ?w"
  show ?case
  proof (cases "firstShip e \<noteq> ErrorBufferFull")
    case True
    then have eq: "submitEvents (item # events) e = submitEvents events ?e1"
      unfolding submitEvents_step Let_def by simp
    have ns: "\<not> stopped ?e1" using Cons.prems(1) by (simp add: stopped_afterShip)
    from Cons.prems(2) eq have st: "stopped (submitEvents events ?e1)" by simp
    from Cons.IH [OF ns st] obtain pre msg r where
      h: "r \<noteq> ShipOk" "JsonPayload msg \<in> set events"
         "shippedSince ?e1 (submitEvents events ?e1)
            = pre @ [(msg, 10 * Second, ErrorBufferFull), (msg, Hour, r)]"
      by blast
    obtain suf where suf: "shipped (submitEvents events ?e1) = shipped ?e1 @ suf"
      using submitEvents_shipped_prefix by blast
    from h(3) suf have "suf = pre @ [(msg, 10 * Second, ErrorBufferFull), (msg, Hour, r)]"
      by (simp add: shippedSince_def)
    with suf have "shippedSince e (submitEvents events ?e1)
        = ((?m, 10 * Second, firstShip e) # pre) @ [(msg, 10 * Second, ErrorBufferFull), (msg, Hour, r)]"
      by (simp add: shippedSince_def shipped_afterShip)
    with h(1,2) eq show ?thesis
      by (metis list.set_intros(2))
  next
    case False
    then have bf: "firstShip e = ErrorBufferFull" by simp
    show ?thesis
    proof (cases "firstShip ?w = ShipOk")
      case True
      with bf have eq: "submitEvents (item # events) e = submitEvents events ?e2"
        unfolding submitEvents_step Let_def by simp
      have ns: "\<not> stopped ?e2"
        using Cons.prems(1) by (simp add: stopped_afterShip stopped_notify)
      from Cons.prems(2) eq have st: "stopped (submitEvents events ?e2)" by simp
      from Cons.IH [OF ns st] obtain pre msg r where
        h: "r \<noteq> ShipOk" "JsonPayload msg \<in> set events"
           "shippedSince ?e2 (submitEvents events ?e2)
              = pre @ [(msg, 10 * Second, ErrorBufferFull), (msg, Hour, r)]"
        by blast
      obtain suf where suf: "shipped (submitEvents events ?e2) = shipped ?e2 @ suf"
        using submitEvents_shipped_prefix by blast
      from h(3) suf have "suf = pre @ [(msg, 10 * Second, ErrorBufferFull), (msg, Hour, r)]"
        by (simp add: shippedSince_def)
      with suf have "shippedSince e (submitEvents events ?e2)
          = ((?m, 10 * Second, firstShip e) # (?m, Hour, firstShip ?w) # pre)
              @ [(msg, 10 * Second, ErrorBufferFull), (msg, Hour, r)]"
        by (simp add: shippedSince_def shipped_afterShip shipped_notify)
      with h(1,2) eq show ?thesis
        by (metis list.set_intros(2))
    next
      case False
      with bf have eq: "submitEvents (item # events) e
          = Close (notify (Error (ShipError (shipErrorText (firstShip ?w)))) ?e2)"
        unfolding submitEvents_step Let_def by simp
      have "shippedSince e (submitEvents (item # events) e)
          = [] @ [(?m, 10 * Second, ErrorBufferFull), (?m, Hour, firstShip ?w)]"
        unfolding eq
        by (simp add: shippedSince_def shipped_Close shipped_notify shipped_afterShip bf)
      moreover have "JsonPayload ?m \<in> set (item # events)"
        by (simp add: dataMessage_def)
      ultimately show ?thesis using False by blast
    qed
  qed
qed


text \<open>
  Claim C10. When the first \<^verbatim>\<open>Ship\<close> of an event fails with an error other than
  \<^verbatim>\<open>ErrorBufferFull\<close>, \<^verbatim>\<open>submitEvents\<close> goes on with the next event: the only trace is that
  one \<^verbatim>\<open>Ship\<close> call with the 10 second bound (no second call, no callback, no \<^verbatim>\<open>Close\<close>).
  When the first \<^verbatim>\<open>Ship\<close> reports a full buffer and the second fails too, the adapter is
  stopped. And \<^verbatim>\<open>submitEvents\<close> stops the adapter only so: the last two \<^verbatim>\<open>Ship\<close> calls it
  made are, for one event of the batch, the 10 second call that reported a full buffer
  and the one hour call that failed.
\<close>

theorem submitEvents_skips_other_errors:
  "(ships e = ShipFailed m # rs \<longrightarrow>
      submitEvents (item # events) e
        = submitEvents events
            (e\<lparr>ships := rs,
               shipped := shipped e @ [(dataMessage item e, 10 * Second, ShipFailed m)]\<rparr>))
   \<and> (ships e = ErrorBufferFull # r # rs \<and> r \<noteq> ShipOk \<longrightarrow>
        stopped (submitEvents (item # events) e))
   \<and> (\<not> stopped e \<and> stopped (submitEvents events e) \<longrightarrow>
        (\<exists>pre msg r'. r' \<noteq> ShipOk \<and> JsonPayload msg \<in> set events
           \<and> shippedSince e (submitEvents events e)
               = pre @ [(msg, 10 * Second, ErrorBufferFull), (msg, Hour, r')]))"
proof (intro conjI impI)
  assume "ships e = ShipFailed m # rs"
  then show "submitEvents (item # events) e
        = submitEvents events
            (e\<lparr>ships := rs,
               shipped := shipped e @ [(dataMessage item e, 10 * Second, ShipFailed m)]\<rparr>)"
    by (simp add: Ship_def)
next
  assume "ships e = ErrorBufferFull # r # rs \<and> r \<noteq> ShipOk"
  then show "stopped (submitEvents (item # events) e)"
    by (cases r) (simp_all add: Ship_def notify_def stopped_Close)
next
  assume "\<not> stopped e \<and> stopped (submitEvents events e)"
  then show "\<exists>pre msg r'. r' \<noteq> ShipOk \<and> JsonPayload msg \<in> set events
           \<and> shippedSince e (submitEvents events e)
               = pre @ [(msg, 10 * Second, ErrorBufferFull), (msg, Hour, r')]"
    using submitEvents_stops_only_after_buffer_full by blast
qed

theorem submitEvents_skips_other_errors_witness:
  "ships (env0\<lparr>ships := [ShipFailed ''broken pipe'']\<rparr>) = [ShipFailed ''broken pipe'']
   \<and> submitEvents [evA, evB] (env0\<lparr>ships := [ShipFailed ''broken pipe'']\<rparr>)
       = env0\<lparr>shipped := [(dataMessage evA env0, 10 * Second, ShipFailed ''broken pipe''),
                           (dataMessage evB env0, 10 * Second, ShipOk)]\<rparr>
   \<and> stopped (submitEvents [evA, evB]
                 (env0\<lparr>ships := [ErrorBufferFull, ShipFailed ''timeout'']\<rparr>))
   \<and> shippedSince (env0\<lparr>ships := [ErrorBufferFull, ShipFailed ''timeout'']\<rparr>)
        (submitEvents [evA, evB] (env0\<lparr>ships := [ErrorBufferFull, ShipFailed ''timeout'']\<rparr>))
       = [(dataMessage evA env0, 10 * Second, ErrorBufferFull),
          (dataMessage evA env0, Hour, ShipFailed ''timeout'')]"
  using submitEvents_skips_other_errors
          [of "env0\<lparr>ships := [ShipFailed ''broken pipe'']\<rparr>" "''broken pipe''" "[]" evA "[evB]"]
        submitEvents_skips_other_errors
          [of "env0\<lparr>ships := [ErrorBufferFull, ShipFailed ''timeout'']\<rparr>" _ _ _ "[evA, evB]"]
  by (simp add: env0_def Ship_def dataMessage_def notify_def Close_def cancel_def
        shippedSince_def)

section \<open>The filter step on one event\<close>

lemma demoParse_threat1: "demoParse ''1699999500'' = Some 1699999500000000000"
  by (simp add: demoParse_def isDigit_def digitsValue_def Second_def)

lemma demoParse_evA: "demoParse ''1700000010'' = Some 1700000010000000000"
  by (simp add: demoParse_def isDigit_def digitsValue_def Second_def)

lemma threat1_id: "abnormal_eventId demoExternals threatsApi threat1 = Inr ''T1''"
  by (simp add: abnormal_eventId_def threatsApi_def abnormal_apis_def threat1_def
        dictIndex_def asString_def)

lemma threat1_occurrence:
  "abnormal_occurrence demoExternals threatsApi threat1 = Some 1699999500000000000"
  by (simp add: abnormal_occurrence_def threatsApi_def abnormal_apis_def threat1_def
        dictIndex_def asString_def demoExternals_def demoParse_threat1)

lemma evA_id: "asString (dictIndex evA (dt_idField aiAnalystApi)) = Some ''A''"
  by (simp add: aiAnalystApi_def darktrace_APIs_def evA_def dictIndex_def asString_def)

lemma evA_occurrence:
  "darktrace_occurrence demoExternals aiAnalystApi evA = Some 1700000010000000000"
  by (simp add: darktrace_occurrence_def aiAnalystApi_def darktrace_APIs_def evA_def
        dictIndex_def asString_def demoExternals_def demoParse_evA)

lemma abnormal_filterEvent_known:
  assumes "abnormal_eventId x api event = Inr ident"
    and "abnormal_occurrence x api event = Some parsedTime"
  shows "abnormal_filterEvent x api since event (newItems, lastDetectionTime, dedupe, e)
        = (if dedupe ident = None \<and> since < parsedTime
           then (newItems @ [event], max lastDetectionTime parsedTime,
                 dedupe(ident \<mapsto> Unix parsedTime), e)
           else (newItems, lastDetectionTime, dedupe, e))"
  using assms
  by (auto simp: abnormal_filterEvent_def abnormal_occurrence_def After_def max_def
          split: option.splits)

lemma darktrace_filterEvent_known:
  assumes "asString (dictIndex event (dt_idField api)) = Some ident"
    and "darktrace_occurrence x api event = Some timeString"
  shows "darktrace_filterEvent x api since event (allItems, lastDetectionTime, dedupe, e)
        = (if dedupe ident = None \<and> time_UnixMilli since < timeString
           then (allItems @ [event], max lastDetectionTime (UnixMilli timeString),
                 dedupe(ident \<mapsto> UnixMilli (now e)), e)
           else (allItems, lastDetectionTime, dedupe, e))"
  using assms
  by (auto simp: darktrace_filterEvent_def darktrace_occurrence_def After_def max_def
          UnixMilli_def time_UnixMilli_def
          split: option.splits)

section \<open>What the dedupe cache stores\<close>

text \<open>
  Claim C9 says that the cache entry of an admitted event holds the wall-clock time of
  the admission. The Abnormal Security walker stores \<^verbatim>\<open>parsedTime.Unix()\<close>, the occurrence
  time of the event in seconds: here an event that occurred at 1699999500 is admitted
  while the clock reads 1700000000, and its entry holds 1699999500.
\<close>

theorem abnormal_dedupe_records_occurrence_time:
  "st_items (abnormal_filterEvent demoExternals threatsApi 1699999000000000000 threat1
               ([], 1699999000000000000, Map.empty, env0)) = [threat1]
   \<and> st_dedupe (abnormal_filterEvent demoExternals threatsApi 1699999000000000000 threat1
               ([], 1699999000000000000, Map.empty, env0)) ''T1'' = Some 1699999500
   \<and> abnormal_occurrence demoExternals threatsApi threat1 = Some (1699999500 * Second)
   \<and> now env0 = 1700000000 * Second
   \<and> Unix (now env0) = 1700000000"
  by (simp add: abnormal_filterEvent_known [OF threat1_id threat1_occurrence]
        threat1_occurrence st_items_def st_dedupe_def env0_def Unix_def Second_def)

text \<open>
  Claim C9, amended: on admission the Darktrace walker stores the wall-clock time of the
  admission, in milliseconds; the Abnormal Security walker stores the occurrence time of
  the event, in seconds.
\<close>

theorem dedupe_entry_timestamp:
  "(abnormal_eventId x api event = Inr ident
      \<and> abnormal_occurrence x api event = Some parsedTime
      \<and> dedupe ident = None \<and> since < parsedTime \<longrightarrow>
      st_dedupe (abnormal_filterEvent x api since event
                   (newItems, lastDetectionTime, dedupe, e)) ident = Some (Unix parsedTime))
   \<and> (asString (dictIndex event' (dt_idField api')) = Some ident'
      \<and> darktrace_occurrence x api' event' = Some timeString
      \<and> dedupe' ident' = None \<and> time_UnixMilli since' < timeString \<longrightarrow>
      st_dedupe (darktrace_filterEvent x api' since' event'
                   (allItems, lastDetectionTime', dedupe', e')) ident'
        = Some (UnixMilli (now e')))"
  by (simp add: abnormal_filterEvent_known darktrace_filterEvent_known st_dedupe_def)

theorem dedupe_entry_timestamp_witness:
  "abnormal_eventId demoExternals threatsApi threat1 = Inr ''T1''
   \<and> abnormal_occurrence demoExternals threatsApi threat1 = Some 1699999500000000000
   \<and> st_dedupe (abnormal_filterEvent demoExternals threatsApi 1699999000000000000 threat1
                  ([], 1699999000000000000, Map.empty, env0)) ''T1''
       = Some (Unix 1699999500000000000)
   \<and> asString (dictIndex evA (dt_idField aiAnalystApi)) = Some ''A''
   \<and> darktrace_occurrence demoExternals aiAnalystApi evA = Some 1700000010000000000
   \<and> st_dedupe (darktrace_filterEvent demoExternals aiAnalystApi 1700000000000 evA
                  ([], 1700000000000, Map.empty, env0)) ''A''
       = Some (UnixMilli (now env0))"
  using dedupe_entry_timestamp
          [of demoExternals threatsApi threat1 "''T1''" 1699999500000000000 Map.empty
              1699999000000000000 "[]" 1699999000000000000 env0
              evA aiAnalystApi "''A''" 1700000010000000000 Map.empty 1700000000000 "[]"
              1700000000000 env0]
  by (simp add: threat1_id threat1_occurrence evA_id evA_occurrence time_UnixMilli_def)

section \<open>Invariants of a walk\<close>

text \<open>
  Every step of the filter loop either leaves the result set, the running maximum and
  the cache as they are, or admits the event. So the events of a result set all have an
  occurrence time after the watermark, the running maximum is the maximum of the
  watermark and these times, and an entry that is in the cache stays in it until the
  deferred pruning.
\<close>

lemma abnormal_filterEvent_cases:
  "(\<exists>e'. abnormal_filterEvent x api since ev (items, L, d, e) = (items, L, d, e'))
   \<or> (\<exists>t ident. abnormal_occurrence x api ev = Some t \<and> since < t \<and> d ident = None
         \<and> abnormal_filterEvent x api since ev (items, L, d, e)
             = (items @ [ev], max L t, d(ident \<mapsto> Unix t), e))"
proof (cases "abnormal_eventId x api ev")
  case (Inl w)
  then show ?thesis by (simp add: abnormal_filterEvent_def)
next
  case (Inr ident)
  show ?thesis
  proof (cases "abnormal_occurrence x api ev")
    case None
    with Inr show ?thesis
      by (auto simp: abnormal_filterEvent_def abnormal_occurrence_def split: option.splits)
  next
    case (Some t)
    from abnormal_filterEvent_known [OF Inr Some, of since items L d e]
    show ?thesis using Some by (cases "d ident = None \<and> since < t") auto
  qed
qed

lemma abnormal_filterEvents_inv:
  "abnormal_filterEvents x api since evs (items, L, d, e) = (items', L', d', e')
   \<Longrightarrow> \<exists>new. items' = items @ new
         \<and> (\<forall>ev\<in>set new. \<exists>t. abnormal_occurrence x api ev = Some t \<and> since < t)
         \<and> L' = fold max (abnormal_times x api new) L
         \<and> (\<forall>k v. d k = Some v \<longrightarrow> d' k = Some v)"
proof (induction evs arbitrary: items L d e)
  case Nil
  then show ?case by (simp add: abnormal_times_def)
next
  case (Cons ev evs)
  from abnormal_filterEvent_cases [of x api since ev items L d e]
  show ?case
  proof (elim disjE exE conjE)
    fix e1
    assume "abnormal_filterEvent x api since ev (items, L, d, e) = (items, L, d, e1)"
    with Cons.prems have "abnormal_filterEvents x api since evs (items, L, d, e1) = (items', L', d', e')"
      by simp
    from Cons.IH [OF this] show ?thesis .
  next
    fix t ident
    assume occ: "abnormal_occurrence x api ev = Some t" and after: "since < t"
      and unseen: "d ident = None"
      and step: "abnormal_filterEvent x api since ev (items, L, d, e)
             = (items @ [ev], max L t, d(ident \<mapsto> Unix t), e)"
    with Cons.prems have
      "abnormal_filterEvents x api since evs (items @ [ev], max L t, d(ident \<mapsto> Unix t), e)
         = (items', L', d', e')"
      by simp
    from Cons.IH [OF this] obtain new where
      n: "items' = (items @ [ev]) @ new"
         "\<forall>ev\<in>set new. \<exists>t. abnormal_occurrence x api ev = Some t \<and> since < t"
         "L' = fold max (abnormal_times x api new) (max L t)"
         "\<forall>k v. (d(ident \<mapsto> Unix t)) k = Some v \<longrightarrow> d' k = Some v"
      by blast
    have "items' = items @ (ev # new)" using n(1) by simp
    moreover have "\<forall>ev\<in>set (ev # new). \<exists>t. abnormal_occurrence x api ev = Some t \<and> since < t"
      using n(2) occ after by simp
    moreover have "L' = fold max (abnormal_times x api (ev # new)) L"
      using n(3) occ by (simp add: abnormal_times_def max.commute)
    moreover have "\<forall>k v. d k = Some v \<longrightarrow> d' k = Some v"
    proof (intro allI impI)
      fix k v assume kv: "d k = Some v"
      with unseen have "k \<noteq> ident" by auto
      with kv n(4) show "d' k = Some v" by simp
    qed
    ultimately show ?thesis by blast
  qed
qed

lemma abnormal_getEvents_loop_inv:
  "abnormal_getEvents_loop x url api params since page allItems L d script e
     = Some (res, ns, d', s', e')
   \<Longrightarrow> (\<forall>k v. d k = Some v \<longrightarrow> d' k = Some v)
       \<and> (\<forall>items. res = Inr items \<longrightarrow>
            (\<exists>new. items = allItems @ new
               \<and> (\<forall>ev\<in>set new. \<exists>t. abnormal_occurrence x api ev = Some t \<and> since < t)
               \<and> ns = fold max (abnormal_times x api new) L))"
proof (induction x url api params since page allItems L d script e
        rule: abnormal_getEvents_loop.induct)
  case (1 x url api params since page allItems L d script e)
  let ?call = "abnormal_doWithRetry x (abnormal_requestUrl x url api params L page)
             (key api) (responseType api) script (notify (Debug ''requesting from'') e)"
  show ?case
  proof (cases ?call)
    case None
    with "1.prems" show ?thesis by (simp add: abnormal_getEvents_loop.simps)
  next
    case (Some r)
    obtain out s1 e1 where r: "r = (out, s1, e1)" by (cases r)
    show ?thesis
    proof (cases out)
      case (Inl er)
      with Some r "1.prems" show ?thesis
        by (auto simp: abnormal_getEvents_loop.simps)
    next
      case (Inr response)
      obtain newItems L1 d1 e2 where
        f: "abnormal_filterEvents x api since (GetDicts response) ([], L, d, e1)
              = (newItems, L1, d1, e2)"
        by (metis prod_cases4)
      from abnormal_filterEvents_inv [OF f] have
        inv: "\<forall>ev\<in>set newItems. \<exists>t. abnormal_occurrence x api ev = Some t \<and> since < t"
             "L1 = fold max (abnormal_times x api newItems) L"
             "\<forall>k v. d k = Some v \<longrightarrow> d1 k = Some v"
        by auto
      show ?thesis
      proof (cases "HasNextPage response")
        case False
        with Some r Inr f "1.prems" have
          "res = Inr (allItems @ newItems)" "ns = L1" "d' = d1"
          by (simp_all add: abnormal_getEvents_loop.simps)
        with inv show ?thesis by auto
      next
        case True
        with Some r Inr f "1.prems" have rec:
          "abnormal_getEvents_loop x url api params since (page + 1) (allItems @ newItems)
             L1 d1 s1 e2 = Some (res, ns, d', s', e')"
          by (simp add: abnormal_getEvents_loop.simps)
        have IH: "(\<forall>k v. d1 k = Some v \<longrightarrow> d' k = Some v)
           \<and> (\<forall>items. res = Inr items \<longrightarrow>
            (\<exists>new. items = (allItems @ newItems) @ new
               \<and> (\<forall>ev\<in>set new. \<exists>t. abnormal_occurrence x api ev = Some t \<and> since < t)
               \<and> ns = fold max (abnormal_times x api new) L1))"
        proof -
          have nn: "\<not> \<not> HasNextPage response" using True by simp
          show ?thesis
            by (rule "1.IH" [OF Some r [symmetric] Inr refl f [symmetric] refl refl nn rec])
        qed
        show ?thesis
        proof (intro conjI allI impI)
          fix k v assume "d k = Some v"
          with inv(3) IH show "d' k = Some v" by blast
        next
          fix items assume "res = Inr items"
          with IH obtain new where
            n: "items = (allItems @ newItems) @ new"
               "\<forall>ev\<in>set new. \<exists>t. abnormal_occurrence x api ev = Some t \<and> since < t"
               "ns = fold max (abnormal_times x api new) L1"
            by blast
          have "items = allItems @ (newItems @ new)" using n(1) by simp
          moreover have "\<forall>ev\<in>set (newItems @ new).
                \<exists>t. abnormal_occurrence x api ev = Some t \<and> since < t"
            using inv(1) n(2) by auto
          moreover have "ns = fold max (abnormal_times x api (newItems @ new)) L"
            using n(3) inv(2) by (simp add: abnormal_times_def)
          ultimately show "\<exists>new. items = allItems @ new
               \<and> (\<forall>ev\<in>set new. \<exists>t. abnormal_occurrence x api ev = Some t \<and> since < t)
               \<and> ns = fold max (abnormal_times x api new) L"
            by blast
        qed
      qed
    qed
  qed
qed


lemma darktrace_filterEvent_cases:
  "(\<exists>e'. darktrace_filterEvent x api since ev (items, L, d, e) = (items, L, d, e'))
   \<or> (\<exists>t ident. darktrace_occurrence x api ev = Some t \<and> time_UnixMilli since < t
         \<and> d ident = None
         \<and> darktrace_filterEvent x api since ev (items, L, d, e)
             = (items @ [ev], max L (UnixMilli t), d(ident \<mapsto> UnixMilli (now e)), e))"
proof (cases "asString (dictIndex ev (dt_idField api))")
  case None
  then show ?thesis by (simp add: darktrace_filterEvent_def)
next
  case (Some ident)
  show ?thesis
  proof (cases "darktrace_occurrence x api ev")
    case None
    with Some show ?thesis
      by (auto simp: darktrace_filterEvent_def darktrace_occurrence_def split: option.splits)
  next
    case (Some t)
    from darktrace_filterEvent_known [OF \<open>asString (dictIndex ev (dt_idField api)) = Some ident\<close> Some,
          of since items L d e]
    show ?thesis using Some by (cases "d ident = None \<and> time_UnixMilli since < t") auto
  qed
qed

lemma darktrace_filterEvents_inv:
  "darktrace_filterEvents x api since evs (items, L, d, e) = (items', L', d', e')
   \<Longrightarrow> \<exists>new. items' = items @ new
         \<and> (\<forall>ev\<in>set new. \<exists>t. darktrace_occurrence x api ev = Some t
                                 \<and> time_UnixMilli since < t)
         \<and> L' = fold max (darktrace_times x api new) L
         \<and> (\<forall>k v. d k = Some v \<longrightarrow> d' k = Some v)"
proof (induction evs arbitrary: items L d e)
  case Nil
  then show ?case by (simp add: darktrace_times_def)
next
  case (Cons ev evs)
  from darktrace_filterEvent_cases [of x api since ev items L d e]
  show ?case
  proof (elim disjE exE conjE)
    fix e1
    assume "darktrace_filterEvent x api since ev (items, L, d, e) = (items, L, d, e1)"
    with Cons.prems have
      "darktrace_filterEvents x api since evs (items, L, d, e1) = (items', L', d', e')"
      by simp
    from Cons.IH [OF this] show ?thesis .
  next
    fix t ident
    assume occ: "darktrace_occurrence x api ev = Some t"
      and after: "time_UnixMilli since < t"
      and unseen: "d ident = None"
      and step: "darktrace_filterEvent x api since ev (items, L, d, e)
             = (items @ [ev], max L (UnixMilli t), d(ident \<mapsto> UnixMilli (now e)), e)"
    with Cons.prems have
      "darktrace_filterEvents x api since evs
         (items @ [ev], max L (UnixMilli t), d(ident \<mapsto> UnixMilli (now e)), e)
         = (items', L', d', e')"
      by simp
    from Cons.IH [OF this] obtain new where
      n: "items' = (items @ [ev]) @ new"
         "\<forall>ev\<in>set new. \<exists>t. darktrace_occurrence x api ev = Some t \<and> time_UnixMilli since < t"
         "L' = fold max (darktrace_times x api new) (max L (UnixMilli t))"
         "\<forall>k v. (d(ident \<mapsto> UnixMilli (now e))) k = Some v \<longrightarrow> d' k = Some v"
      by blast
    have "items' = items @ (ev # new)" using n(1) by simp
    moreover have "\<forall>ev\<in>set (ev # new). \<exists>t. darktrace_occurrence x api ev = Some t
          \<and> time_UnixMilli since < t"
      using n(2) occ after by simp
    moreover have "L' = fold max (darktrace_times x api (ev # new)) L"
      using n(3) occ by (simp add: darktrace_times_def max.commute)
    moreover have "\<forall>k v. d k = Some v \<longrightarrow> d' k = Some v"
    proof (intro allI impI)
      fix k v assume kv: "d k = Some v"
      with unseen have "k \<noteq> ident" by auto
      with kv n(4) show "d' k = Some v" by simp
    qed
    ultimately show ?thesis by blast
  qed
qed

lemma fold_max_ge: "(L::int) \<le> fold max ts L"
  by (induction ts arbitrary: L) (auto intro: order_trans [OF max.cobounded2])

lemma fold_max_Max:
  "ts \<noteq> [] \<Longrightarrow> \<forall>t\<in>set ts. (L::int) \<le> t \<Longrightarrow> fold max ts L = Max (set ts)"
proof -
  assume ne: "ts \<noteq> []" and ge: "\<forall>t\<in>set ts. L \<le> t"
  have "fold max ts L = Max (set (L # ts))" by (rule Max.set_eq_fold [symmetric])
  also have "\<dots> = max L (Max (set ts))" using ne by simp
  also have "\<dots> = Max (set ts)"
  proof -
    obtain t where "t \<in> set ts" using ne by (cases ts) auto
    with ge have "L \<le> t" "t \<le> Max (set ts)" by auto
    then show ?thesis by simp
  qed
  finally show ?thesis .
qed

lemma abnormal_getEvents_watermark:
  assumes "abnormal_getEvents x url api since dedupe script e
             = Some (Inr items, newSince, dedupe', script', e')"
  shows "since \<le> newSince
       \<and> (items = [] \<longrightarrow> newSince = since)
       \<and> (items \<noteq> [] \<longrightarrow> newSince = Max (set (abnormal_times x api items)))
       \<and> (\<forall>ev\<in>set items. \<exists>t. abnormal_occurrence x api ev = Some t \<and> since < t)"
proof -
  from assms obtain mid where
    body: "abnormal_getEvents_body x url api since dedupe script e
             = Some (Inr items, newSince, mid, script', e')"
    by (auto simp: abnormal_getEvents_def split: option.splits)
  from abnormal_getEvents_loop_inv [OF body [unfolded abnormal_getEvents_body_def]]
  have good: "\<forall>ev\<in>set items. \<exists>t. abnormal_occurrence x api ev = Some t \<and> since < t"
    and ns: "newSince = fold max (abnormal_times x api items) since"
    by auto
  have ge: "\<forall>t\<in>set (abnormal_times x api items). since \<le> t"
    using good by (fastforce simp: abnormal_times_def)
  have "items \<noteq> [] \<longrightarrow> newSince = Max (set (abnormal_times x api items))"
    using fold_max_Max [OF _ ge] ns by (simp add: abnormal_times_def)
  moreover have "items = [] \<longrightarrow> newSince = since" using ns by (simp add: abnormal_times_def)
  moreover have "since \<le> newSince" using ns fold_max_ge by simp
  ultimately show ?thesis using good by blast
qed

lemma UnixMilli_after: "time_UnixMilli since < t \<Longrightarrow> since \<le> UnixMilli t"
  by (simp add: time_UnixMilli_def UnixMilli_def)

lemma darktrace_getEvents_watermark:
  assumes "darktrace_getEvents x c url since api dedupe script e
             = Some (Inr items, newSince, dedupe', script', e')"
  shows "since \<le> newSince
       \<and> (items = [] \<longrightarrow> newSince = since)
       \<and> (items \<noteq> [] \<longrightarrow> newSince = Max (set (darktrace_times x api items)))
       \<and> (\<forall>ev\<in>set items. \<exists>t. darktrace_occurrence x api ev = Some t
                                  \<and> time_UnixMilli since < t)"
proof -
  from assms obtain mid where
    body: "darktrace_getEvents_body x c url since api dedupe script e
             = Some (Inr items, newSince, mid, script', e')"
    by (auto simp: darktrace_getEvents_def split: option.splits)
  then obtain events e1 where
    f: "darktrace_filterEvents x api since events ([], since, dedupe, e1)
          = (items, newSince, mid, e')"
    by (auto simp: darktrace_getEvents_body_def split: option.splits sum.splits prod.splits)
  from darktrace_filterEvents_inv [OF f]
  have good: "\<forall>ev\<in>set items. \<exists>t. darktrace_occurrence x api ev = Some t
                \<and> time_UnixMilli since < t"
    and ns: "newSince = fold max (darktrace_times x api items) since"
    by auto
  have ge: "\<forall>t\<in>set (darktrace_times x api items). since \<le> t"
    using good UnixMilli_after by (fastforce simp: darktrace_times_def)
  have "items \<noteq> [] \<longrightarrow> newSince = Max (set (darktrace_times x api items))"
    using fold_max_Max [OF _ ge] ns by (simp add: darktrace_times_def)
  moreover have "items = [] \<longrightarrow> newSince = since" using ns by (simp add: darktrace_times_def)
  moreover have "since \<le> newSince" using ns fold_max_ge by simp
  ultimately show ?thesis using good by blast
qed

lemma abnormal_cycle_monotone:
  "abnormal_cycle x c apis since dd allItems script e = Some (since', dd', allItems', script', e')
     \<Longrightarrow> since k \<le> since' k"
proof (induction apis arbitrary: since dd allItems script e)
  case Nil
  then show ?case by simp
next
  case (Cons api apis)
  let ?walk = "abnormal_getEvents x (BaseURL c @ endpoint api) api (since (key api))
             (dd (key api)) script e"
  from Cons.prems obtain res newSince d1 s1 e1 where
    w: "?walk = Some (res, newSince, d1, s1, e1)"
    by (cases ?walk) auto
  show ?case
  proof (cases res)
    case (Inl er)
    with w Cons.prems have
      "abnormal_cycle x c apis since (dd(key api := d1)) allItems s1
         (notify (Error (FetchFailed (key api) er)) e1) = Some (since', dd', allItems', script', e')"
      by simp
    from Cons.IH [OF this] show ?thesis .
  next
    case (Inr items)
    with w have up: "since (key api) \<le> newSince"
      using abnormal_getEvents_watermark by blast
    have mid: "since k \<le> (since(key api := newSince)) k" using up by simp
    from w Inr Cons.prems obtain all1 s2 e2 where
      "abnormal_cycle x c apis (since(key api := newSince)) (dd(key api := d1)) all1 s2 e2
         = Some (since', dd', allItems', script', e')"
      by (auto split: if_splits option.splits)
    from Cons.IH [OF this] mid show ?thesis by (rule order_trans [rotated])
  qed
qed

lemma darktrace_cycle_monotone:
  "darktrace_cycle x c apis since dd allItems script e = Some (since', dd', allItems', script', e')
     \<Longrightarrow> since k \<le> since' k"
proof (induction apis arbitrary: since dd allItems script e)
  case Nil
  then show ?case by simp
next
  case (Cons api apis)
  let ?walk = "darktrace_getEvents x c (Url c @ Endpoint api) (since (Key api)) api
             (dd (Key api)) script e"
  from Cons.prems obtain res newSince d1 s1 e1 where
    w: "?walk = Some (res, newSince, d1, s1, e1)"
    by (cases ?walk) auto
  show ?case
  proof (cases res)
    case (Inl er)
    with w Cons.prems have
      "darktrace_cycle x c apis since (dd(Key api := d1)) allItems s1
         (notify (Error (FetchFailed (Key api) er)) e1) = Some (since', dd', allItems', script', e')"
      by simp
    from Cons.IH [OF this] show ?thesis .
  next
    case (Inr items)
    with w have up: "since (Key api) \<le> newSince"
      using darktrace_getEvents_watermark by blast
    have mid: "since k \<le> (since(Key api := newSince)) k" using up by simp
    from w Inr Cons.prems have
      "darktrace_cycle x c apis (since(Key api := newSince)) (dd(Key api := d1))
         (allItems @ items) s1 e1
         = Some (since', dd', allItems', script', e')"
      by simp
    from Cons.IH [OF this] mid show ?thesis by (rule order_trans [rotated])
  qed
qed



text \<open>A walk of two pages on the concrete inputs.\<close>

lemma demo_decode_page1: "abnormal_decode demoExternals (PagedResponse f) ''page1'' = Some ([threat1], True)"
  by (simp add: abnormal_decode_def demoExternals_def demoBody_def)

lemma demo_decode_page2: "abnormal_decode demoExternals (PagedResponse f) ''page2'' = Some ([threat2], False)"
  by (simp add: abnormal_decode_def demoExternals_def demoBody_def)

lemma demo_newRequest: "http_NewRequest_ok demoExternals url"
  by (simp add: demoExternals_def)

lemma threatsApi_simps:
  "key threatsApi = ''threats''" "responseType threatsApi = PagedResponse ''threats''"
  "parameters threatsApi = None" "idField threatsApi = ''threatId''"
  "timeField threatsApi = ''receivedTime''"
  by (simp_all add: threatsApi_def abnormal_apis_def)

lemma demoParse_threat2: "demoParse ''1699999600'' = Some 1699999600000000000"
  by (simp add: demoParse_def isDigit_def digitsValue_def Second_def)

lemma threat2_id: "abnormal_eventId demoExternals threatsApi threat2 = Inr ''T2''"
  by (simp add: abnormal_eventId_def threatsApi_simps threat2_def dictIndex_def asString_def)

lemma threat2_occurrence:
  "abnormal_occurrence demoExternals threatsApi threat2 = Some 1699999600000000000"
  by (simp add: abnormal_occurrence_def threatsApi_simps threat2_def
        dictIndex_def asString_def demoExternals_def demoParse_threat2)

lemma demo_two_pages:
  "walk_result (abnormal_getEvents demoExternals ''u'' threatsApi
       1699999000000000000 Map.empty
       [Response 200 [] ''page1'', Response 200 [] ''page2''] env0)
     = Some (Inr [threat1, threat2], 1699999600000000000)"
  by (simp add: walk_result_def abnormal_getEvents_def abnormal_getEvents_body_def
        abnormal_getEvents_loop.simps [of _ _ _ _ _ _ _ _ _ "_ # _"] demo_newRequest
        demo_decode_page1 demo_decode_page2 threatsApi_simps GetDicts_def HasNextPage_def
        abnormal_filterEvent_known [OF threat1_id threat1_occurrence]
        abnormal_filterEvent_known [OF threat2_id threat2_occurrence])

section \<open>The watermark\<close>

text \<open>Walks and cycles on the concrete inputs.\<close>

lemma demo_signature: "generateSignature demoExternals c ts url \<noteq> None"
  by (simp add: generateSignature_def demoExternals_def)

lemma demo_list_A: "json_Unmarshal_list demoExternals ''A'' = Some [evA]"
  by (simp add: demoExternals_def demoBody_def)

lemma demo_list_B: "json_Unmarshal_list demoExternals ''B'' = Some [evB]"
  by (simp add: demoExternals_def demoBody_def)

lemma demoParse_evB: "demoParse ''1700000020'' = Some 1700000020000000000"
  by (simp add: demoParse_def isDigit_def digitsValue_def Second_def)

lemma evB_id: "asString (dictIndex evB (dt_idField aiAnalystApi)) = Some ''B''"
  by (simp add: aiAnalystApi_def darktrace_APIs_def evB_def dictIndex_def asString_def)

lemma evB_occurrence:
  "darktrace_occurrence demoExternals aiAnalystApi evB = Some 1700000020000000000"
  by (simp add: darktrace_occurrence_def aiAnalystApi_def darktrace_APIs_def evB_def
        dictIndex_def asString_def demoExternals_def demoParse_evB)

lemma demo_darktrace_walk:
  "walk_result (darktrace_getEvents demoExternals dtCfgDemo ''u'' 1700000000000 aiAnalystApi
       Map.empty [Response 200 [] ''A''] env0)
     = Some (Inr [evA], 1700000010000)"
  by (simp add: walk_result_def darktrace_getEvents_def darktrace_getEvents_body_def
        demo_newRequest demo_signature demo_list_A
        darktrace_filterEvent_known [OF evA_id evA_occurrence]
        time_UnixMilli_def UnixMilli_def)

lemma threats_hasDetailFn: "hasDetailFn threatsApi"
  by (simp add: threatsApi_def abnormal_apis_def)

lemma threat1_rawID: "map_of threat1 ''threatId'' = Some (JString ''T1'')"
  by (simp add: threat1_def)

lemma threat2_rawID: "map_of threat2 ''threatId'' = Some (JString ''T2'')"
  by (simp add: threat2_def)

lemma demo_abnormal_cycle:
  "cycle_watermark ''threats''
     (abnormal_cycle demoExternals cfgDemo [threatsApi] (\<lambda>k. 1699999000000000000)
        (\<lambda>k. Map.empty) []
        [Response 200 [] ''page1'', Response 200 [] ''page2'', DoError ''down'', DoError ''down'']
        env0)
     = Some 1699999600000000000"
  by (simp add: cycle_watermark_def abnormal_getEvents_def abnormal_getEvents_body_def
        abnormal_getEvents_loop.simps [of _ _ _ _ _ _ _ _ _ "_ # _"] demo_newRequest
        demo_decode_page1 demo_decode_page2 threatsApi_simps GetDicts_def HasNextPage_def
        abnormal_filterEvent_known [OF threat1_id threat1_occurrence]
        abnormal_filterEvent_known [OF threat2_id threat2_occurrence]
        threats_hasDetailFn threat1_rawID threat2_rawID asString_def)

lemma demo_darktrace_cycle:
  "cycle_watermark ''aiAnalyst''
     (darktrace_cycle demoExternals dtCfgDemo [aiAnalystApi] (\<lambda>k. 1700000000000)
        (\<lambda>k. Map.empty) [] [Response 200 [] ''A''] env0)
     = Some 1700000010000"
  by (simp add: cycle_watermark_def darktrace_getEvents_def darktrace_getEvents_body_def
        demo_newRequest demo_signature demo_list_A
        darktrace_filterEvent_known [OF evA_id evA_occurrence]
        time_UnixMilli_def UnixMilli_def aiAnalystApi_def [THEN arg_cong [of _ _ Key]]
        darktrace_APIs_def)

text \<open>
  Claim C5 says that the watermark a walk returns is never below the watermark it was
  called with. A Darktrace walk whose request fails returns 0 beside the error: called
  with 1700000000000 and refused the connection, it returns 0.
\<close>

theorem darktrace_failed_walk_returns_below_input:
  "walk_result (darktrace_getEvents demoExternals dtCfgDemo ''u'' 1700000000000 aiAnalystApi
       Map.empty [DoError ''connection refused''] env0)
     = Some (Inl (RequestError ''connection refused''), 0)
   \<and> \<not> (1700000000000 :: int) \<le> 0"
  by (simp add: walk_result_def darktrace_getEvents_def darktrace_getEvents_body_def
        demo_newRequest demo_signature)

text \<open>
  Claim C5, amended: a walk that returns without error returns a watermark that is not
  below the one it was called with; it is the input watermark when no event was
  admitted, and the maximum occurrence time of the admitted events otherwise (in the
  Darktrace adapter the occurrence times in whole milliseconds). Over a whole cycle,
  whatever its walks return, the stored watermark of every source is not below its
  value before the cycle.
\<close>

theorem watermark_never_regresses:
  "(abnormal_getEvents x url api since dedupe script e
      = Some (Inr items, newSince, dedupe', script', e') \<longrightarrow>
      since \<le> newSince
      \<and> (items = [] \<longrightarrow> newSince = since)
      \<and> (items \<noteq> [] \<longrightarrow> newSince = Max (set (abnormal_times x api items))))
   \<and> (darktrace_getEvents x c durl dsince dapi ddedupe dscript de
      = Some (Inr ditems, dnewSince, ddedupe', dscript', de') \<longrightarrow>
      dsince \<le> dnewSince
      \<and> (ditems = [] \<longrightarrow> dnewSince = dsince)
      \<and> (ditems \<noteq> [] \<longrightarrow> dnewSince = Max (set (darktrace_times x dapi ditems))))
   \<and> (abnormal_cycle x ac apis sinceMap dd allItems cscript ce = Some (sinceMap', r)
      \<longrightarrow> (\<forall>k. sinceMap k \<le> sinceMap' k))
   \<and> (darktrace_cycle x c dapis dsinceMap ddd dallItems dcscript dce = Some (dsinceMap', dr)
      \<longrightarrow> (\<forall>k. dsinceMap k \<le> dsinceMap' k))"
proof (intro conjI impI allI)
  assume h: "abnormal_getEvents x url api since dedupe script e
      = Some (Inr items, newSince, dedupe', script', e')"
  from abnormal_getEvents_watermark [OF h]
  show "since \<le> newSince" and "items = [] \<Longrightarrow> newSince = since"
    and "items \<noteq> [] \<Longrightarrow> newSince = Max (set (abnormal_times x api items))"
    by blast+
next
  assume h: "darktrace_getEvents x c durl dsince dapi ddedupe dscript de
      = Some (Inr ditems, dnewSince, ddedupe', dscript', de')"
  from darktrace_getEvents_watermark [OF h]
  show "dsince \<le> dnewSince" and "ditems = [] \<Longrightarrow> dnewSince = dsince"
    and "ditems \<noteq> [] \<Longrightarrow> dnewSince = Max (set (darktrace_times x dapi ditems))"
    by blast+
next
  fix k
  assume h: "abnormal_cycle x ac apis sinceMap dd allItems cscript ce = Some (sinceMap', r)"
  obtain a b cc d where "r = (a, b, cc, d)" by (cases r)
  with h show "sinceMap k \<le> sinceMap' k" using abnormal_cycle_monotone by blast
next
  fix k
  assume h: "darktrace_cycle x c dapis dsinceMap ddd dallItems dcscript dce = Some (dsinceMap', dr)"
  obtain a b cc d where "dr = (a, b, cc, d)" by (cases dr)
  with h show "dsinceMap k \<le> dsinceMap' k" using darktrace_cycle_monotone by blast
qed

theorem watermark_never_regresses_witness:
  "walk_result (abnormal_getEvents demoExternals ''u'' threatsApi
       1699999000000000000 Map.empty
       [Response 200 [] ''page1'', Response 200 [] ''page2''] env0)
     = Some (Inr [threat1, threat2], 1699999600000000000)
   \<and> (1699999000000000000 :: int) \<le> 1699999600000000000
   \<and> (1699999600000000000 :: int)
       = Max (set (abnormal_times demoExternals threatsApi [threat1, threat2]))
   \<and> walk_result (darktrace_getEvents demoExternals dtCfgDemo ''u'' 1700000000000 aiAnalystApi
       Map.empty [Response 200 [] ''A''] env0)
     = Some (Inr [evA], 1700000010000)
   \<and> (1700000010000 :: int) = Max (set (darktrace_times demoExternals aiAnalystApi [evA]))
   \<and> cycle_watermark ''threats''
       (abnormal_cycle demoExternals cfgDemo [threatsApi] (\<lambda>k. 1699999000000000000)
          (\<lambda>k. Map.empty) []
          [Response 200 [] ''page1'', Response 200 [] ''page2'', DoError ''down'',
           DoError ''down''] env0)
     = Some 1699999600000000000
   \<and> cycle_watermark ''aiAnalyst''
       (darktrace_cycle demoExternals dtCfgDemo [aiAnalystApi] (\<lambda>k. 1700000000000)
          (\<lambda>k. Map.empty) [] [Response 200 [] ''A''] env0)
     = Some 1700000010000"
proof -
  obtain d1 s1 e1 where w1:
    "abnormal_getEvents demoExternals ''u'' threatsApi 1699999000000000000 Map.empty
       [Response 200 [] ''page1'', Response 200 [] ''page2''] env0
     = Some (Inr [threat1, threat2], 1699999600000000000, d1, s1, e1)"
    using demo_two_pages by (auto simp: walk_result_def)
  obtain d2 s2 e2 where w2:
    "darktrace_getEvents demoExternals dtCfgDemo ''u'' 1700000000000 aiAnalystApi
       Map.empty [Response 200 [] ''A''] env0
     = Some (Inr [evA], 1700000010000, d2, s2, e2)"
    using demo_darktrace_walk by (auto simp: walk_result_def)
  note inst = watermark_never_regresses
    [where x = demoExternals and api = threatsApi and items = "[threat1, threat2]"
       and dapi = aiAnalystApi and ditems = "[evA]"]
  from inst [THEN conjunct1, rule_format, OF w1]
  have a: "(1699999000000000000 :: int) \<le> 1699999600000000000"
    "(1699999600000000000 :: int)
       = Max (set (abnormal_times demoExternals threatsApi [threat1, threat2]))"
    by simp_all
  from inst [THEN conjunct2, THEN conjunct1, rule_format, OF w2]
  have b: "(1700000010000 :: int) = Max (set (darktrace_times demoExternals aiAnalystApi [evA]))"
    by simp
  show ?thesis
    using a b demo_two_pages demo_darktrace_walk demo_abnormal_cycle demo_darktrace_cycle
    by simp
qed

section \<open>Pruning the dedupe cache\<close>

lemma darktrace_threshold: "UnixMilli (time_UnixMilli since + (- 1) * Minute) = since - 60000"
proof -
  have "time_UnixMilli since + (- 1) * Minute = (since - 60000) * 1000000"
    by (simp add: time_UnixMilli_def Minute_def Second_def algebra_simps)
  then show ?thesis by (simp add: UnixMilli_def)
qed

lemma darktrace_prune_apply:
  "darktrace_prune since mid k
     = (case mid k of None \<Rightarrow> None | Some v \<Rightarrow> if v < since - 60000 then None else Some v)"
  unfolding darktrace_prune_def darktrace_threshold by (rule refl)

lemma darktrace_getEvents_body_keeps:
  assumes "darktrace_getEvents_body x c url since api dedupe script e
             = Some (res, newSince, mid, script', e')"
    and "dedupe k = Some v"
  shows "mid k = Some v"
proof -
  let ?call = "darktrace_doWithRetry x c
             (url @ ''&starttime='' @ showInt since @ ''&endtime='' @ showInt (UnixMilli (now e)))
             api script e"
  from assms(1) obtain out s1 e1 where r: "?call = Some (out, s1, e1)"
    by (cases ?call) (auto simp: darktrace_getEvents_body_def)
  show ?thesis
  proof (cases out)
    case (Inl er)
    with r assms show ?thesis by (simp add: darktrace_getEvents_body_def)
  next
    case (Inr events)
    obtain items L d1 e2 where
      f: "darktrace_filterEvents x api since events ([], since, dedupe, e1) = (items, L, d1, e2)"
      by (metis prod_cases4)
    with r Inr assms(1) have "mid = d1" by (simp add: darktrace_getEvents_body_def)
    with darktrace_filterEvents_inv [OF f] assms(2) show ?thesis by blast
  qed
qed

lemma demo_darktrace_walk_B:
  "\<exists>e'. darktrace_getEvents demoExternals dtCfgDemo ''u'' 1700000000000 aiAnalystApi
       [''old'' \<mapsto> 1699999950000, ''older'' \<mapsto> 1699999930000] [Response 200 [] ''B''] env0
     = Some (Inr [evB], 1700000020000,
             darktrace_prune 1700000000000
               [''old'' \<mapsto> 1699999950000, ''older'' \<mapsto> 1699999930000,
                ''B'' \<mapsto> 1700000000000],
             [], e')"
  by (simp add: darktrace_getEvents_def darktrace_getEvents_body_def
        demo_newRequest demo_signature demo_list_B
        darktrace_filterEvent_known [OF evB_id evB_occurrence]
        time_UnixMilli_def UnixMilli_def env0_def Second_def)

text \<open>
  Claim C6 says that the pruning pass works from the advanced watermark. The deferred
  function of \<^verbatim>\<open>getEvents\<close> reads \<^verbatim>\<open>since\<close>, the watermark the walk was called with. Here
  a Darktrace walk called with watermark 1700000000000 admits an event and returns
  1700000020000. The entry stamped 1699999950000 is older than the advanced watermark
  minus one minute, and it is still in the cache after the walk.
\<close>

theorem darktrace_prune_ignores_advanced_watermark:
  "walk_result (darktrace_getEvents demoExternals dtCfgDemo ''u'' 1700000000000 aiAnalystApi
       [''old'' \<mapsto> 1699999950000, ''older'' \<mapsto> 1699999930000] [Response 200 [] ''B''] env0)
     = Some (Inr [evB], 1700000020000)
   \<and> map_option (\<lambda>d. d ''old'')
        (walk_dedupe (darktrace_getEvents demoExternals dtCfgDemo ''u'' 1700000000000
           aiAnalystApi [''old'' \<mapsto> 1699999950000, ''older'' \<mapsto> 1699999930000]
           [Response 200 [] ''B''] env0))
     = Some (Some 1699999950000)
   \<and> (1699999950000 :: int) < 1700000020000 - 60000"
  using demo_darktrace_walk_B
  by (auto simp: walk_result_def walk_dedupe_def darktrace_prune_apply)

text \<open>
  Claim C6, amended: after every walk, failed or not, the cache is the cache the body of
  the walk left, without exactly the entries whose stamp is older than the input
  watermark minus one minute (Darktrace, in milliseconds), or older than the input
  watermark in whole seconds with no grace period (Abnormal Security). For an entry that
  was in the cache when the walk began this decides by the entry's own stamp whether it
  is there afterwards.
\<close>

theorem pruning_uses_input_watermark:
  "(abnormal_getEvents x url api since dedupe script e
      = Some (res, newSince, dedupe', script', e') \<longrightarrow>
      (\<exists>mid. abnormal_getEvents_body x url api since dedupe script e
                = Some (res, newSince, mid, script', e')
         \<and> (\<forall>k. dedupe' k = (case mid k of
                                 None \<Rightarrow> None
                               | Some v \<Rightarrow> if v < Unix since then None else Some v)))
      \<and> (\<forall>k v. dedupe k = Some v \<longrightarrow>
            dedupe' k = (if v < Unix since then None else Some v)))
   \<and> (darktrace_getEvents x c durl dsince dapi ddedupe dscript de
      = Some (dres, dnewSince, ddedupe', dscript', de') \<longrightarrow>
      (\<exists>mid. darktrace_getEvents_body x c durl dsince dapi ddedupe dscript de
                = Some (dres, dnewSince, mid, dscript', de')
         \<and> (\<forall>k. ddedupe' k = (case mid k of
                                  None \<Rightarrow> None
                                | Some v \<Rightarrow> if v < dsince - 60000 then None else Some v)))
      \<and> (\<forall>k v. ddedupe k = Some v \<longrightarrow>
            ddedupe' k = (if v < dsince - 60000 then None else Some v)))"
proof (intro conjI impI)
  assume h: "abnormal_getEvents x url api since dedupe script e
      = Some (res, newSince, dedupe', script', e')"
  then obtain mid where
    body: "abnormal_getEvents_body x url api since dedupe script e
             = Some (res, newSince, mid, script', e')"
    and pr: "dedupe' = abnormal_prune since mid"
    by (auto simp: abnormal_getEvents_def split: option.splits)
  have p: "\<forall>k. dedupe' k = (case mid k of
                                 None \<Rightarrow> None
                               | Some v \<Rightarrow> if v < Unix since then None else Some v)"
    by (simp add: pr abnormal_prune_def)
  with body show "\<exists>mid. abnormal_getEvents_body x url api since dedupe script e
                = Some (res, newSince, mid, script', e')
         \<and> (\<forall>k. dedupe' k = (case mid k of
                                 None \<Rightarrow> None
                               | Some v \<Rightarrow> if v < Unix since then None else Some v))"
    by blast
  from abnormal_getEvents_loop_inv [OF body [unfolded abnormal_getEvents_body_def]]
  have keep: "\<forall>k v. dedupe k = Some v \<longrightarrow> mid k = Some v" by blast
  show "\<forall>k v. dedupe k = Some v \<longrightarrow>
            dedupe' k = (if v < Unix since then None else Some v)"
    using keep p by simp
next
  assume h: "darktrace_getEvents x c durl dsince dapi ddedupe dscript de
      = Some (dres, dnewSince, ddedupe', dscript', de')"
  then obtain mid where
    body: "darktrace_getEvents_body x c durl dsince dapi ddedupe dscript de
             = Some (dres, dnewSince, mid, dscript', de')"
    and pr: "ddedupe' = darktrace_prune dsince mid"
    by (auto simp: darktrace_getEvents_def split: option.splits)
  have p: "\<forall>k. ddedupe' k = (case mid k of
                                  None \<Rightarrow> None
                                | Some v \<Rightarrow> if v < dsince - 60000 then None else Some v)"
    by (simp add: pr darktrace_prune_apply)
  with body show "\<exists>mid. darktrace_getEvents_body x c durl dsince dapi ddedupe dscript de
                = Some (dres, dnewSince, mid, dscript', de')
         \<and> (\<forall>k. ddedupe' k = (case mid k of
                                  None \<Rightarrow> None
                                | Some v \<Rightarrow> if v < dsince - 60000 then None else Some v))"
    by blast
  have keep: "\<forall>k v. ddedupe k = Some v \<longrightarrow> mid k = Some v"
    using darktrace_getEvents_body_keeps [OF body] by blast
  show "\<forall>k v. ddedupe k = Some v \<longrightarrow>
            ddedupe' k = (if v < dsince - 60000 then None else Some v)"
    using keep p by simp
qed

theorem pruning_uses_input_watermark_witness:
  "walk_result (abnormal_getEvents demoExternals ''u'' threatsApi
       1699999000000000000 [''T0'' \<mapsto> 1699998000, ''T9'' \<mapsto> 1699999000]
       [Response 200 [] ''page1'', Response 200 [] ''page2''] env0)
     = Some (Inr [threat1, threat2], 1699999600000000000)
   \<and> map_option (\<lambda>d. (d ''T0'', d ''T9''))
        (walk_dedupe (abnormal_getEvents demoExternals ''u'' threatsApi
           1699999000000000000 [''T0'' \<mapsto> 1699998000, ''T9'' \<mapsto> 1699999000]
           [Response 200 [] ''page1'', Response 200 [] ''page2''] env0))
     = Some (None, Some 1699999000)
   \<and> map_option (\<lambda>d. (d ''old'', d ''older''))
        (walk_dedupe (darktrace_getEvents demoExternals dtCfgDemo ''u'' 1700000000000
           aiAnalystApi [''old'' \<mapsto> 1699999950000, ''older'' \<mapsto> 1699999930000]
           [Response 200 [] ''B''] env0))
     = Some (Some 1699999950000, None)"
proof -
  let ?dd = "[''T0'' \<mapsto> 1699998000 :: int, ''T9'' \<mapsto> 1699999000]"
  let ?w = "abnormal_getEvents demoExternals ''u'' threatsApi
       1699999000000000000 ?dd
       [Response 200 [] ''page1'', Response 200 [] ''page2''] env0"
  have wr: "walk_result ?w = Some (Inr [threat1, threat2], 1699999600000000000)"
    by (simp add: walk_result_def abnormal_getEvents_def abnormal_getEvents_body_def
        abnormal_getEvents_loop.simps [of _ _ _ _ _ _ _ _ _ "_ # _"] demo_newRequest
        demo_decode_page1 demo_decode_page2 threatsApi_simps GetDicts_def HasNextPage_def
        abnormal_filterEvent_known [OF threat1_id threat1_occurrence]
        abnormal_filterEvent_known [OF threat2_id threat2_occurrence])
  then obtain d1 s1 e1 where w1:
    "?w = Some (Inr [threat1, threat2], 1699999600000000000, d1, s1, e1)"
    by (auto simp: walk_result_def)
  note inst = pruning_uses_input_watermark
    [where x = demoExternals and api = threatsApi and since = 1699999000000000000
       and dedupe = ?dd and dapi = aiAnalystApi and dsince = 1700000000000
       and ddedupe = "[''old'' \<mapsto> 1699999950000, ''older'' \<mapsto> 1699999930000]"]
  from inst [THEN conjunct1, rule_format, OF w1]
  have "\<forall>k v. ?dd k = Some v \<longrightarrow> d1 k = (if v < Unix 1699999000000000000 then None else Some v)"
    by blast
  then have "d1 ''T0'' = None" "d1 ''T9'' = Some 1699999000"
    by (simp_all add: Unix_def)
  with w1 have a: "map_option (\<lambda>d. (d ''T0'', d ''T9'')) (walk_dedupe ?w)
     = Some (None, Some 1699999000)"
    by (simp add: walk_dedupe_def)
  obtain e2 where w2:
    "darktrace_getEvents demoExternals dtCfgDemo ''u'' 1700000000000 aiAnalystApi
       [''old'' \<mapsto> 1699999950000, ''older'' \<mapsto> 1699999930000] [Response 200 [] ''B''] env0
     = Some (Inr [evB], 1700000020000,
             darktrace_prune 1700000000000
               [''old'' \<mapsto> 1699999950000, ''older'' \<mapsto> 1699999930000,
                ''B'' \<mapsto> 1700000000000],
             [], e2)"
    using demo_darktrace_walk_B by blast
  from inst [THEN conjunct2, rule_format, OF w2]
  have "\<forall>k v. [''old'' \<mapsto> 1699999950000 :: int, ''older'' \<mapsto> 1699999930000] k = Some v \<longrightarrow>
     darktrace_prune 1700000000000
               [''old'' \<mapsto> 1699999950000, ''older'' \<mapsto> 1699999930000,
                ''B'' \<mapsto> 1700000000000] k = (if v < 1700000000000 - 60000 then None else Some v)"
    by blast
  then have b: "map_option (\<lambda>d. (d ''old'', d ''older''))
        (walk_dedupe (darktrace_getEvents demoExternals dtCfgDemo ''u'' 1700000000000
           aiAnalystApi [''old'' \<mapsto> 1699999950000, ''older'' \<mapsto> 1699999930000]
           [Response 200 [] ''B''] env0))
     = Some (Some 1699999950000, None)"
    by (simp add: w2 walk_dedupe_def darktrace_prune_apply)
  from wr a b show ?thesis by simp
qed

section \<open>A walk that ends in an error\<close>

text \<open>
  The scheduler writes the watermark of a source only after a walk that returned
  without error, so a cycle leaves the watermark of every key unchanged that belongs to
  none of its sources or whose walk failed.
\<close>

lemma abnormal_cycle_frame:
  "abnormal_cycle x c apis since dd allItems script e = Some (since', r)
     \<Longrightarrow> k \<notin> key ` set apis \<Longrightarrow> since' k = since k"
proof (induction apis arbitrary: since dd allItems script e)
  case Nil
  then show ?case by simp
next
  case (Cons api apis)
  let ?walk = "abnormal_getEvents x (BaseURL c @ endpoint api) api (since (key api))
             (dd (key api)) script e"
  from Cons.prems(2) have k: "k \<noteq> key api" "k \<notin> key ` set apis" by auto
  from Cons.prems(1) obtain res newSince d1 s1 e1 where
    w: "?walk = Some (res, newSince, d1, s1, e1)"
    by (cases ?walk) auto
  show ?case
  proof (cases res)
    case (Inl er)
    with w Cons.prems(1) have
      "abnormal_cycle x c apis since (dd(key api := d1)) allItems s1
         (notify (Error (FetchFailed (key api) er)) e1) = Some (since', r)"
      by simp
    from Cons.IH [OF this k(2)] show ?thesis .
  next
    case (Inr items)
    from w Inr Cons.prems(1) obtain all1 s2 e2 where
      "abnormal_cycle x c apis (since(key api := newSince)) (dd(key api := d1)) all1 s2 e2
         = Some (since', r)"
      by (auto split: if_splits option.splits)
    from Cons.IH [OF this k(2)] k(1) show ?thesis by simp
  qed
qed

lemma darktrace_cycle_frame:
  "darktrace_cycle x c apis since dd allItems script e = Some (since', r)
     \<Longrightarrow> k \<notin> Key ` set apis \<Longrightarrow> since' k = since k"
proof (induction apis arbitrary: since dd allItems script e)
  case Nil
  then show ?case by simp
next
  case (Cons api apis)
  let ?walk = "darktrace_getEvents x c (Url c @ Endpoint api) (since (Key api)) api
             (dd (Key api)) script e"
  from Cons.prems(2) have k: "k \<noteq> Key api" "k \<notin> Key ` set apis" by auto
  from Cons.prems(1) obtain res newSince d1 s1 e1 where
    w: "?walk = Some (res, newSince, d1, s1, e1)"
    by (cases ?walk) auto
  show ?case
  proof (cases res)
    case (Inl er)
    with w Cons.prems(1) have
      "darktrace_cycle x c apis since (dd(Key api := d1)) allItems s1
         (notify (Error (FetchFailed (Key api) er)) e1) = Some (since', r)"
      by simp
    from Cons.IH [OF this k(2)] show ?thesis .
  next
    case (Inr items)
    from w Inr Cons.prems(1) have
      "darktrace_cycle x c apis (since(Key api := newSince)) (dd(Key api := d1))
         (allItems @ items) s1 e1 = Some (since', r)"
      by simp
    from Cons.IH [OF this k(2)] k(1) show ?thesis by simp
  qed
qed

text \<open>
  What a walk returns beside an error. The Abnormal Security page loop returns
  \<^verbatim>\<open>lastDetectionTime\<close> as it stands at the request that fails; whatever the walk returns,
  the watermark it returns is the maximum of the input watermark and of the occurrence
  times of events that occurred strictly after it. The Darktrace walk returns 0.
\<close>

lemma abnormal_getEvents_loop_returned:
  "abnormal_getEvents_loop x url api params since page allItems L d script e
     = Some (res, ns, d', s', e')
   \<Longrightarrow> \<exists>new. (\<forall>ev\<in>set new. \<exists>t. abnormal_occurrence x api ev = Some t \<and> since < t)
            \<and> ns = fold max (abnormal_times x api new) L"
proof (induction x url api params since page allItems L d script e
        rule: abnormal_getEvents_loop.induct)
  case (1 x url api params since page allItems L d script e)
  let ?call = "abnormal_doWithRetry x (abnormal_requestUrl x url api params L page)
             (key api) (responseType api) script (notify (Debug ''requesting from'') e)"
  show ?case
  proof (cases ?call)
    case None
    with "1.prems" show ?thesis by (simp add: abnormal_getEvents_loop.simps)
  next
    case (Some r)
    obtain out s1 e1 where r: "r = (out, s1, e1)" by (cases r)
    show ?thesis
    proof (cases out)
      case (Inl er)
      with Some r "1.prems" have "ns = L" by (auto simp: abnormal_getEvents_loop.simps)
      then have "(\<forall>ev\<in>set []. \<exists>t. abnormal_occurrence x api ev = Some t \<and> since < t)
            \<and> ns = fold max (abnormal_times x api []) L"
        by (simp add: abnormal_times_def)
      then show ?thesis by blast
    next
      case (Inr response)
      obtain newItems L1 d1 e2 where
        f: "abnormal_filterEvents x api since (GetDicts response) ([], L, d, e1)
              = (newItems, L1, d1, e2)"
        by (metis prod_cases4)
      from abnormal_filterEvents_inv [OF f] have
        inv: "\<forall>ev\<in>set newItems. \<exists>t. abnormal_occurrence x api ev = Some t \<and> since < t"
             "L1 = fold max (abnormal_times x api newItems) L"
        by auto
      show ?thesis
      proof (cases "HasNextPage response")
        case False
        with Some r Inr f "1.prems" have "ns = L1"
          by (simp add: abnormal_getEvents_loop.simps)
        with inv show ?thesis by blast
      next
        case True
        with Some r Inr f "1.prems" have rec:
          "abnormal_getEvents_loop x url api params since (page + 1) (allItems @ newItems)
             L1 d1 s1 e2 = Some (res, ns, d', s', e')"
          by (simp add: abnormal_getEvents_loop.simps)
        have nn: "\<not> \<not> HasNextPage response" using True by simp
        from "1.IH" [OF Some r [symmetric] Inr refl f [symmetric] refl refl nn rec]
        obtain new where
          n: "\<forall>ev\<in>set new. \<exists>t. abnormal_occurrence x api ev = Some t \<and> since < t"
             "ns = fold max (abnormal_times x api new) L1"
          by blast
        have "\<forall>ev\<in>set (newItems @ new).
                \<exists>t. abnormal_occurrence x api ev = Some t \<and> since < t"
          using inv(1) n(1) by auto
        moreover have "ns = fold max (abnormal_times x api (newItems @ new)) L"
          using n(2) inv(2) by (simp add: abnormal_times_def)
        ultimately show ?thesis by blast
      qed
    qed
  qed
qed

lemma abnormal_failed_walk_returns:
  assumes "abnormal_getEvents x url api since dedupe script e
             = Some (res, newSince, dedupe', script', e')"
  shows "since \<le> newSince
       \<and> (\<exists>admitted. (\<forall>ev\<in>set admitted. \<exists>t. abnormal_occurrence x api ev = Some t
                                            \<and> since < t)
             \<and> newSince = Max (set (since # abnormal_times x api admitted)))"
proof -
  from assms obtain mid where
    body: "abnormal_getEvents_body x url api since dedupe script e
             = Some (res, newSince, mid, script', e')"
    by (auto simp: abnormal_getEvents_def split: option.splits)
  from abnormal_getEvents_loop_returned [OF body [unfolded abnormal_getEvents_body_def]]
  obtain new where
    n: "\<forall>ev\<in>set new. \<exists>t. abnormal_occurrence x api ev = Some t \<and> since < t"
       "newSince = fold max (abnormal_times x api new) since"
    by blast
  have "newSince = Max (set (since # abnormal_times x api new))"
    using n(2) by (simp only: Max.set_eq_fold)
  moreover have "since \<le> newSince" using n(2) fold_max_ge by simp
  ultimately show ?thesis using n(1) by blast
qed

lemma darktrace_failed_walk_returns:
  assumes "darktrace_getEvents x c url since api dedupe script e
             = Some (Inl er, newSince, dedupe', script', e')"
  shows "newSince = 0"
  using assms
  by (auto simp: darktrace_getEvents_def darktrace_getEvents_body_def
        split: option.splits sum.splits prod.splits)

lemma abnormal_getEvents_loop_failed:
  assumes "abnormal_doWithRetry x (abnormal_requestUrl x pageUrl api params L page)
             (key api) (responseType api) script (notify (Debug ''requesting from'') e)
           = Some (Inl er, script', eb)"
  shows "abnormal_getEvents_loop x pageUrl api params wm page items L d script e
       = Some (Inl er, L, d, script', eb)"
  using assms by (simp add: abnormal_getEvents_loop.simps [of _ _ _ _ _ _ _ _ _ script])

lemma abnormal_getEvents_first_failed:
  assumes "abnormal_doWithRetry x
             (abnormal_requestUrl x pageUrl api
                (case parameters api of
                   None \<Rightarrow> [''filter'', ''pageNumber'', ''pageSize'']
                 | Some ps \<Rightarrow> ps) wm 1)
             (key api) (responseType api) script (notify (Debug ''requesting from'') e)
           = Some (Inl er, script', eb)"
  shows "walk_result (abnormal_getEvents x pageUrl api wm d script e) = Some (Inl er, wm)"
  using abnormal_getEvents_loop_failed [OF assms]
  by (simp add: walk_result_def abnormal_getEvents_def abnormal_getEvents_body_def)

text \<open>
  Claim C2 says that a walk that ends in an error returns the watermark it was called
  with. It does not. The Abnormal Security walk returns \<^verbatim>\<open>lastDetectionTime\<close>, which the
  pages before the error have advanced: called with 1699999000, it admits an event of
  1699999500 on page one, page two answers 500, and it returns 1699999500 beside the
  error. The Darktrace walk returns 0 beside every error.
\<close>

theorem failed_walk_returns_other_watermark:
  "walk_result (abnormal_getEvents demoExternals ''u'' threatsApi
       1699999000000000000 Map.empty
       [Response 200 [] ''page1'', Response 500 [] ''oops''] env0)
     = Some (Inl (Non200 500 ''oops''), 1699999500000000000)
   \<and> (1699999500000000000 :: int) \<noteq> 1699999000000000000
   \<and> walk_result (darktrace_getEvents demoExternals dtCfgDemo ''u'' 1700000000000 aiAnalystApi
       Map.empty [Response 500 [] ''oops''] env0)
     = Some (Inl (Non200 500 ''oops''), 0)"
  by (simp add: walk_result_def abnormal_getEvents_def abnormal_getEvents_body_def
        abnormal_getEvents_loop.simps [of _ _ _ _ _ _ _ _ _ "_ # _"] demo_newRequest
        demo_decode_page1 threatsApi_simps GetDicts_def HasNextPage_def
        abnormal_filterEvent_known [OF threat1_id threat1_occurrence]
        darktrace_getEvents_def darktrace_getEvents_body_def demo_signature)

text \<open>
  Claim C2, amended: when the walk of a source ends in an error, the scheduler reports
  the error, drops the watermark the walk returned and goes on with the remaining
  sources, the watermark map being as it was; at the end of the cycle the stored
  watermark of that source is its value before the cycle, no later source of the cycle
  having the same key. Beside its error the Darktrace walk returns 0. The Abnormal
  Security walk returns the value that \<^verbatim>\<open>lastDetectionTime\<close> has at the request that
  fails: this is the input watermark when the first request fails, and in every case
  the maximum of the input watermark and of the occurrence times of a list of events,
  empty or not, that all occurred strictly after the input watermark, hence a value that
  is not below the input watermark.
\<close>

theorem failed_walk_keeps_stored_watermark:
  "(abnormal_getEvents x (BaseURL c @ endpoint api) api (since (key api)) (dd (key api))
        script e = Some (Inl er, newSince, dedupe', script', e') \<longrightarrow>
      abnormal_cycle x c (api # apis) since dd allItems script e
        = abnormal_cycle x c apis since (dd(key api := dedupe')) allItems script'
            (notify (Error (FetchFailed (key api) er)) e')
      \<and> (key api \<notin> key ` set apis
           \<and> abnormal_cycle x c (api # apis) since dd allItems script e = Some (since', r)
          \<longrightarrow> since' (key api) = since (key api))
      \<and> since (key api) \<le> newSince
      \<and> (\<exists>admitted.
            (\<forall>ev\<in>set admitted. \<exists>t. abnormal_occurrence x api ev = Some t
                                    \<and> since (key api) < t)
            \<and> newSince = Max (set (since (key api) # abnormal_times x api admitted))))
   \<and> (darktrace_getEvents x dc (Url dc @ Endpoint dapi) (dsince (Key dapi)) dapi
        (ddd (Key dapi)) dscript de = Some (Inl der, dnewSince, ddedupe', dscript', de') \<longrightarrow>
      darktrace_cycle x dc (dapi # dapis) dsince ddd dallItems dscript de
        = darktrace_cycle x dc dapis dsince (ddd(Key dapi := ddedupe')) dallItems dscript'
            (notify (Error (FetchFailed (Key dapi) der)) de')
      \<and> (Key dapi \<notin> Key ` set dapis
           \<and> darktrace_cycle x dc (dapi # dapis) dsince ddd dallItems dscript de
               = Some (dsince', dr)
          \<longrightarrow> dsince' (Key dapi) = dsince (Key dapi))
      \<and> dnewSince = 0)
   \<and> (abnormal_doWithRetry x (abnormal_requestUrl x pageUrl api params L page)
          (key api) (responseType api) pscript (notify (Debug ''requesting from'') pe)
        = Some (Inl per, pscript', pe') \<longrightarrow>
      abnormal_getEvents_loop x pageUrl api params wm page items L d pscript pe
        = Some (Inl per, L, d, pscript', pe'))
   \<and> (abnormal_doWithRetry x
          (abnormal_requestUrl x pageUrl api
             (case parameters api of
                None \<Rightarrow> [''filter'', ''pageNumber'', ''pageSize'']
              | Some ps \<Rightarrow> ps) wm 1)
          (key api) (responseType api) fscript (notify (Debug ''requesting from'') fe)
        = Some (Inl fer, fscript', fe') \<longrightarrow>
      walk_result (abnormal_getEvents x pageUrl api wm d fscript fe) = Some (Inl fer, wm))"
proof (intro conjI impI)
  assume h: "abnormal_getEvents x (BaseURL c @ endpoint api) api (since (key api))
        (dd (key api)) script e = Some (Inl er, newSince, dedupe', script', e')"
  then show eq: "abnormal_cycle x c (api # apis) since dd allItems script e
        = abnormal_cycle x c apis since (dd(key api := dedupe')) allItems script'
            (notify (Error (FetchFailed (key api) er)) e')"
    by simp
  from abnormal_failed_walk_returns [OF h]
  show "since (key api) \<le> newSince"
    and "\<exists>admitted.
            (\<forall>ev\<in>set admitted. \<exists>t. abnormal_occurrence x api ev = Some t
                                    \<and> since (key api) < t)
            \<and> newSince = Max (set (since (key api) # abnormal_times x api admitted))"
    by blast+
  assume "key api \<notin> key ` set apis
           \<and> abnormal_cycle x c (api # apis) since dd allItems script e = Some (since', r)"
  with eq show "since' (key api) = since (key api)"
    using abnormal_cycle_frame by metis
next
  assume h: "darktrace_getEvents x dc (Url dc @ Endpoint dapi) (dsince (Key dapi)) dapi
        (ddd (Key dapi)) dscript de = Some (Inl der, dnewSince, ddedupe', dscript', de')"
  then show eq: "darktrace_cycle x dc (dapi # dapis) dsince ddd dallItems dscript de
        = darktrace_cycle x dc dapis dsince (ddd(Key dapi := ddedupe')) dallItems dscript'
            (notify (Error (FetchFailed (Key dapi) der)) de')"
    by simp
  from darktrace_failed_walk_returns [OF h] show "dnewSince = 0" .
  assume "Key dapi \<notin> Key ` set dapis
           \<and> darktrace_cycle x dc (dapi # dapis) dsince ddd dallItems dscript de
               = Some (dsince', dr)"
  with eq show "dsince' (Key dapi) = dsince (Key dapi)"
    using darktrace_cycle_frame by metis
next
  assume "abnormal_doWithRetry x (abnormal_requestUrl x pageUrl api params L page)
          (key api) (responseType api) pscript (notify (Debug ''requesting from'') pe)
        = Some (Inl per, pscript', pe')"
  then show "abnormal_getEvents_loop x pageUrl api params wm page items L d pscript pe
        = Some (Inl per, L, d, pscript', pe')"
    by (rule abnormal_getEvents_loop_failed)
next
  assume "abnormal_doWithRetry x
          (abnormal_requestUrl x pageUrl api
             (case parameters api of
                None \<Rightarrow> [''filter'', ''pageNumber'', ''pageSize'']
              | Some ps \<Rightarrow> ps) wm 1)
          (key api) (responseType api) fscript (notify (Debug ''requesting from'') fe)
        = Some (Inl fer, fscript', fe')"
  then show "walk_result (abnormal_getEvents x pageUrl api wm d fscript fe)
        = Some (Inl fer, wm)"
    by (rule abnormal_getEvents_first_failed)
qed

lemma aiAnalyst_Key: "Key aiAnalystApi = ''aiAnalyst''"
  by (simp add: aiAnalystApi_def darktrace_APIs_def)

lemma modelBreaches_simps:
  "Key modelBreachesApi = ''modelBreaches''" "dt_idField modelBreachesApi = ''id''"
  "dt_timeField modelBreachesApi = ''detectiontime''"
  "timeFormat modelBreachesApi = ''20060102T150405''"
  by (simp_all add: modelBreachesApi_def darktrace_APIs_def)

lemma evA_id_mb: "asString (dictIndex evA (dt_idField modelBreachesApi)) = Some ''A''"
  by (simp add: modelBreaches_simps evA_def dictIndex_def asString_def)

lemma evA_occurrence_mb:
  "darktrace_occurrence demoExternals modelBreachesApi evA = Some 1700000010000000000"
  by (simp add: darktrace_occurrence_def modelBreaches_simps evA_def
        dictIndex_def asString_def demoExternals_def demoParse_evA)

lemma demo_darktrace_failed_walk:
  "\<exists>d' e'. darktrace_getEvents demoExternals dtCfgDemo (Url dtCfgDemo @ Endpoint aiAnalystApi)
       1700000000000 aiAnalystApi Map.empty
       [Response 500 [] ''oops'', Response 200 [] ''A''] env0
     = Some (Inl (Non200 500 ''oops''), 0, d', [Response 200 [] ''A''], e')"
  by (simp add: darktrace_getEvents_def darktrace_getEvents_body_def demo_newRequest
        demo_signature)

lemma demo_darktrace_cycle_two:
  "cycle_watermark ''modelBreaches''
     (darktrace_cycle demoExternals dtCfgDemo [aiAnalystApi, modelBreachesApi]
        (\<lambda>k. 1700000000000) (\<lambda>k. Map.empty) []
        [Response 500 [] ''oops'', Response 200 [] ''A''] env0)
     = Some 1700000010000"
  by (simp add: cycle_watermark_def darktrace_getEvents_def darktrace_getEvents_body_def
        demo_newRequest demo_signature demo_list_A aiAnalyst_Key modelBreaches_simps
        darktrace_filterEvent_known [OF evA_id_mb evA_occurrence_mb]
        time_UnixMilli_def UnixMilli_def)

lemma auditLogs_key: "key auditLogsApi = ''auditLogs''"
  by (simp add: auditLogsApi_def abnormal_apis_def)

lemma demo_abnormal_failed_walk:
  "\<exists>d' e'. abnormal_getEvents demoExternals (BaseURL cfgDemo @ endpoint threatsApi) threatsApi
       1699999000000000000 Map.empty
       [Response 200 [] ''page1'', Response 500 [] ''oops'', DoError ''down''] env0
     = Some (Inl (Non200 500 ''oops''), 1699999500000000000, d', [DoError ''down''], e')"
  by (simp add: abnormal_getEvents_def abnormal_getEvents_body_def
        abnormal_getEvents_loop.simps [of _ _ _ _ _ _ _ _ _ "_ # _"] demo_newRequest
        demo_decode_page1 threatsApi_simps GetDicts_def HasNextPage_def
        abnormal_filterEvent_known [OF threat1_id threat1_occurrence])

lemma demo_abnormal_cycle_two:
  "cycle_watermark ''auditLogs''
     (abnormal_cycle demoExternals cfgDemo [threatsApi, auditLogsApi]
        (\<lambda>k. 1699999000000000000) (\<lambda>k. Map.empty) []
        [Response 200 [] ''page1'', Response 500 [] ''oops'', DoError ''down''] env0)
     = Some 1699999000000000000"
  by (simp add: cycle_watermark_def abnormal_getEvents_def abnormal_getEvents_body_def
        abnormal_getEvents_loop.simps [of _ _ _ _ _ _ _ _ _ "_ # _"] demo_newRequest
        demo_decode_page1 threatsApi_simps GetDicts_def HasNextPage_def
        abnormal_filterEvent_known [OF threat1_id threat1_occurrence])

lemma demo_failed_request:
  "\<exists>e1. abnormal_doWithRetry demoExternals
          (abnormal_requestUrl demoExternals ''u'' threatsApi
             [''filter'', ''pageNumber'', ''pageSize''] L page)
          (key threatsApi) (responseType threatsApi) [Response 500 [] ''oops'']
          (notify (Debug ''requesting from'') env0)
        = Some (Inl (Non200 500 ''oops''), [], e1)"
  by (simp add: demo_newRequest threatsApi_simps)

theorem failed_walk_keeps_stored_watermark_witness:
  "walk_result (abnormal_getEvents demoExternals (BaseURL cfgDemo @ endpoint threatsApi)
       threatsApi 1699999000000000000 Map.empty
       [Response 200 [] ''page1'', Response 500 [] ''oops'', DoError ''down''] env0)
     = Some (Inl (Non200 500 ''oops''), 1699999500000000000)
   \<and> (1699999000000000000 :: int) \<le> 1699999500000000000
   \<and> key threatsApi \<notin> key ` set [auditLogsApi]
   \<and> cycle_watermark ''threats''
       (abnormal_cycle demoExternals cfgDemo [threatsApi, auditLogsApi]
          (\<lambda>k. 1699999000000000000) (\<lambda>k. Map.empty) []
          [Response 200 [] ''page1'', Response 500 [] ''oops'', DoError ''down''] env0)
     = Some 1699999000000000000
   \<and> walk_result (darktrace_getEvents demoExternals dtCfgDemo
       (Url dtCfgDemo @ Endpoint aiAnalystApi) 1700000000000 aiAnalystApi Map.empty
       [Response 500 [] ''oops'', Response 200 [] ''A''] env0)
     = Some (Inl (Non200 500 ''oops''), 0)
   \<and> Key aiAnalystApi \<notin> Key ` set [modelBreachesApi]
   \<and> cycle_watermark ''aiAnalyst''
       (darktrace_cycle demoExternals dtCfgDemo [aiAnalystApi, modelBreachesApi]
          (\<lambda>k. 1700000000000) (\<lambda>k. Map.empty) []
          [Response 500 [] ''oops'', Response 200 [] ''A''] env0)
     = Some 1700000000000
   \<and> cycle_watermark ''modelBreaches''
       (darktrace_cycle demoExternals dtCfgDemo [aiAnalystApi, modelBreachesApi]
          (\<lambda>k. 1700000000000) (\<lambda>k. Map.empty) []
          [Response 500 [] ''oops'', Response 200 [] ''A''] env0)
     = Some 1700000010000
   \<and> walk_result (abnormal_getEvents_loop demoExternals ''u'' threatsApi
       [''filter'', ''pageNumber'', ''pageSize''] 1699999000000000000 2 [threat1]
       1699999500000000000 [''T1'' \<mapsto> 1699999500] [Response 500 [] ''oops''] env0)
     = Some (Inl (Non200 500 ''oops''), 1699999500000000000)
   \<and> walk_result (abnormal_getEvents demoExternals ''u'' threatsApi 1699999000000000000
       Map.empty [Response 500 [] ''oops''] env0)
     = Some (Inl (Non200 500 ''oops''), 1699999000000000000)"
proof -
  let ?acycle = "abnormal_cycle demoExternals cfgDemo [threatsApi, auditLogsApi]
          (\<lambda>k. 1699999000000000000) (\<lambda>k. Map.empty) []
          [Response 200 [] ''page1'', Response 500 [] ''oops'', DoError ''down''] env0"
  obtain ad' ae' where aw:
    "abnormal_getEvents demoExternals (BaseURL cfgDemo @ endpoint threatsApi) threatsApi
       ((\<lambda>k. 1699999000000000000) (key threatsApi)) ((\<lambda>k. Map.empty) (key threatsApi))
       [Response 200 [] ''page1'', Response 500 [] ''oops'', DoError ''down''] env0
     = Some (Inl (Non200 500 ''oops''), 1699999500000000000, ad', [DoError ''down''], ae')"
    using demo_abnormal_failed_walk by auto
  have akeys: "key threatsApi \<notin> key ` set [auditLogsApi]"
    by (simp add: threatsApi_simps auditLogs_key)
  obtain asince' ar where ac: "?acycle = Some (asince', ar)"
    using demo_abnormal_cycle_two by (auto simp: cycle_watermark_def)
  note ainst = failed_walk_keeps_stored_watermark
         [where x = demoExternals and c = cfgDemo and api = threatsApi
            and since = "\<lambda>k. 1699999000000000000" and dd = "\<lambda>k. Map.empty"
            and apis = "[auditLogsApi]" and allItems = "[]" and since' = asince'
            and r = ar,
          THEN conjunct1, rule_format, OF aw]
  from ainst have "asince' (key threatsApi) = 1699999000000000000"
    using akeys ac by simp
  then have aa: "cycle_watermark ''threats'' ?acycle = Some 1699999000000000000"
    using ac by (simp add: cycle_watermark_def threatsApi_simps)
  from ainst have ale: "(1699999000000000000 :: int) \<le> 1699999500000000000"
    by simp
  have awr: "walk_result (abnormal_getEvents demoExternals (BaseURL cfgDemo @ endpoint threatsApi)
       threatsApi 1699999000000000000 Map.empty
       [Response 200 [] ''page1'', Response 500 [] ''oops'', DoError ''down''] env0)
     = Some (Inl (Non200 500 ''oops''), 1699999500000000000)"
    using aw by (simp add: walk_result_def)
  let ?cycle = "darktrace_cycle demoExternals dtCfgDemo [aiAnalystApi, modelBreachesApi]
          (\<lambda>k. 1700000000000) (\<lambda>k. Map.empty) []
          [Response 500 [] ''oops'', Response 200 [] ''A''] env0"
  obtain d' e' where w:
    "darktrace_getEvents demoExternals dtCfgDemo (Url dtCfgDemo @ Endpoint aiAnalystApi)
       ((\<lambda>k. 1700000000000) (Key aiAnalystApi)) aiAnalystApi ((\<lambda>k. Map.empty) (Key aiAnalystApi))
       [Response 500 [] ''oops'', Response 200 [] ''A''] env0
     = Some (Inl (Non200 500 ''oops''), 0, d', [Response 200 [] ''A''], e')"
    using demo_darktrace_failed_walk by auto
  have keys: "Key aiAnalystApi \<notin> Key ` set [modelBreachesApi]"
    by (simp add: aiAnalyst_Key modelBreaches_simps)
  obtain since' r where c: "?cycle = Some (since', r)"
    using demo_darktrace_cycle_two by (auto simp: cycle_watermark_def)
  from failed_walk_keeps_stored_watermark
         [where x = demoExternals and dc = dtCfgDemo and dapi = aiAnalystApi
            and dsince = "\<lambda>k. 1700000000000" and ddd = "\<lambda>k. Map.empty"
            and dapis = "[modelBreachesApi]" and dallItems = "[]" and dsince' = since'
            and dr = r,
          THEN conjunct2, THEN conjunct1, rule_format, OF w]
  have "since' (Key aiAnalystApi) = 1700000000000"
    using keys c by simp
  then have a: "cycle_watermark ''aiAnalyst'' ?cycle = Some 1700000000000"
    using c by (simp add: cycle_watermark_def aiAnalyst_Key)
  have wr: "walk_result (darktrace_getEvents demoExternals dtCfgDemo
       (Url dtCfgDemo @ Endpoint aiAnalystApi) 1700000000000 aiAnalystApi Map.empty
       [Response 500 [] ''oops'', Response 200 [] ''A''] env0)
     = Some (Inl (Non200 500 ''oops''), 0)"
    using w by (simp add: walk_result_def)
  obtain e1 where p2:
    "abnormal_doWithRetry demoExternals
          (abnormal_requestUrl demoExternals ''u'' threatsApi
             [''filter'', ''pageNumber'', ''pageSize''] 1699999500000000000 2)
          (key threatsApi) (responseType threatsApi) [Response 500 [] ''oops'']
          (notify (Debug ''requesting from'') env0)
        = Some (Inl (Non200 500 ''oops''), [], e1)"
    using demo_failed_request by blast
  have lp: "walk_result (abnormal_getEvents_loop demoExternals ''u'' threatsApi
       [''filter'', ''pageNumber'', ''pageSize''] 1699999000000000000 2 [threat1]
       1699999500000000000 [''T1'' \<mapsto> 1699999500] [Response 500 [] ''oops''] env0)
     = Some (Inl (Non200 500 ''oops''), 1699999500000000000)"
    using failed_walk_keeps_stored_watermark
         [where x = demoExternals and api = threatsApi and pageUrl = "''u''"
            and params = "[''filter'', ''pageNumber'', ''pageSize'']"
            and L = 1699999500000000000 and page = 2 and wm = 1699999000000000000
            and items = "[threat1]" and d = "[''T1'' \<mapsto> 1699999500]",
          THEN conjunct2, THEN conjunct2, THEN conjunct1, rule_format, OF p2]
    by (simp add: walk_result_def)
  obtain e2 where p1:
    "abnormal_doWithRetry demoExternals
          (abnormal_requestUrl demoExternals ''u'' threatsApi
             (case parameters threatsApi of
                None \<Rightarrow> [''filter'', ''pageNumber'', ''pageSize'']
              | Some ps \<Rightarrow> ps) 1699999000000000000 1)
          (key threatsApi) (responseType threatsApi) [Response 500 [] ''oops'']
          (notify (Debug ''requesting from'') env0)
        = Some (Inl (Non200 500 ''oops''), [], e2)"
    using demo_failed_request [of 1699999000000000000 1] by (auto simp: threatsApi_simps)
  have fp: "walk_result (abnormal_getEvents demoExternals ''u'' threatsApi 1699999000000000000
       Map.empty [Response 500 [] ''oops''] env0)
     = Some (Inl (Non200 500 ''oops''), 1699999000000000000)"
    by (rule failed_walk_keeps_stored_watermark
         [where x = demoExternals and api = threatsApi and pageUrl = "''u''"
            and wm = 1699999000000000000 and d = Map.empty,
          THEN conjunct2, THEN conjunct2, THEN conjunct2, rule_format, OF p1])
  from awr ale akeys aa wr keys a demo_darktrace_cycle_two lp fp show ?thesis by simp
qed

section \<open>Backoff on 429\<close>


lemma sleepContext_uncancelled:
  "cancelAt e = None \<Longrightarrow>
     sleepContext d e = (None, e\<lparr>now := max (now e) (now e + d), slept := slept e @ [d]\<rparr>)"
  by (simp add: sleepContext_def)

lemma sleepContext_cancelled:
  "cancelAt e = Some c \<Longrightarrow> c \<le> max (now e) (now e + d) \<Longrightarrow>
     sleepContext d e = (Some ContextCanceled, e\<lparr>now := max (now e) c\<rparr>)"
  by (simp add: sleepContext_def)





















section \<open>Events of a source without an identifier field\<close>

lemma auditLogs_simps:
  "key auditLogsApi = ''auditLogs''" "idField auditLogsApi = []"
  "timeField auditLogsApi = ''timestamp''"
  "responseType auditLogsApi = PagedResponse ''auditLogs''" "parameters auditLogsApi = None"
  by (simp_all add: auditLogsApi_def abnormal_apis_def)

lemma abnormal_eventId_missing_key:
  "map_of event (idField api) = None \<Longrightarrow>
     abnormal_eventId x api event = Inl (Warning ''event contains an id that is not a string'')"
  by (simp add: abnormal_eventId_def dictIndex_def asString_def)

lemma demo_decode_audit:
  "abnormal_decode demoExternals (PagedResponse f) ''audit'' = Some ([audit1], False)"
  by (simp add: abnormal_decode_def demoExternals_def demoBody_def)

lemma audit1_no_id: "map_of audit1 (idField auditLogsApi) = None"
  by (simp add: audit1_def auditLogs_simps)

lemma audit1_occurrence:
  "abnormal_occurrence demoExternals auditLogsApi audit1 = Some 1699999500000000000"
  by (simp add: abnormal_occurrence_def auditLogs_simps audit1_def
        dictIndex_def asString_def demoExternals_def demoParse_threat1)

text \<open>
  Claim C1 says that an event of a source that declares no identifier field gets a
  content hash as its identifier. The walker takes the hash branch only when
  \<^verbatim>\<open>event[api.idField]\<close> is the empty string itself. For the audit log source the
  identifier field is the empty name; an event has no such key, the lookup gives the nil
  interface, which differs from the empty string, and the type assertion on it fails:
  the event is dropped with the warning that its id is not a string. Here the audit
  event occurred after the watermark and the walk returns nothing; only with a key of
  the empty name that holds the empty string does the event get the decimal FNV-1a
  hash of its serialization.
\<close>

theorem abnormal_event_without_id_field_is_dropped:
  "idField auditLogsApi = []
   \<and> abnormal_occurrence demoExternals auditLogsApi audit1 = Some 1699999500000000000
   \<and> abnormal_eventId demoExternals auditLogsApi audit1
       = Inl (Warning ''event contains an id that is not a string'')
   \<and> walk_result (abnormal_getEvents demoExternals ''u'' auditLogsApi 1699999000000000000
        Map.empty [Response 200 [] ''audit''] env0)
       = Some (Inr [], 1699999000000000000)
   \<and> map_option notices (walk_env (abnormal_getEvents demoExternals ''u'' auditLogsApi
        1699999000000000000 Map.empty [Response 200 [] ''audit''] env0))
       = Some [Debug ''requesting from'',
               Warning ''event contains an id that is not a string'']
   \<and> abnormal_eventId demoExternals auditLogsApi audit1_emptyId
       = Inr (decimal (unat (fnv64a (the (json_Marshal demoExternals audit1_emptyId)))))"
proof -
  have id: "abnormal_eventId demoExternals auditLogsApi audit1
       = Inl (Warning ''event contains an id that is not a string'')"
    by (rule abnormal_eventId_missing_key [OF audit1_no_id])
  have f: "abnormal_filterEvent demoExternals auditLogsApi since audit1 (items, L, d, e)
       = (items, L, d, notify (Warning ''event contains an id that is not a string'') e)"
    for since items L d e
    by (simp add: abnormal_filterEvent_def id)
  have w: "abnormal_getEvents demoExternals ''u'' auditLogsApi 1699999000000000000
        Map.empty [Response 200 [] ''audit''] env0
      = Some (Inr [], 1699999000000000000, abnormal_prune 1699999000000000000 Map.empty, [],
              notify (Warning ''event contains an id that is not a string'')
                ((notify (Debug ''requesting from'') env0)
                  \<lparr>requests := requests (notify (Debug ''requesting from'') env0)
                     @ [abnormal_requestUrl demoExternals ''u'' auditLogsApi
                          [''filter'', ''pageNumber'', ''pageSize''] 1699999000000000000 1]\<rparr>))"
    by (simp add: abnormal_getEvents_def abnormal_getEvents_body_def
        abnormal_getEvents_loop.simps [of _ _ _ _ _ _ _ _ _ "_ # _"] demo_newRequest
        demo_decode_audit auditLogs_simps GetDicts_def HasNextPage_def f)
  have h: "abnormal_eventId demoExternals auditLogsApi audit1_emptyId
       = Inr (decimal (unat (fnv64a (the (json_Marshal demoExternals audit1_emptyId)))))"
    by (simp add: abnormal_eventId_def auditLogs_simps audit1_emptyId_def dictIndex_def
          demoExternals_def)
  have n: "notices env0 = []" by (simp add: env0_def)
  show ?thesis
    by (simp add: auditLogs_simps audit1_occurrence id w h walk_result_def walk_env_def
          notify_def n)
qed

section \<open>Cancellation and the scheduler loop\<close>

lemma abnormal_fetchEvents_loop_None:
  "abnormal_fetchEvents_loop x c apis sel since dd script e = None"
proof (induction sel arbitrary: since dd script e)
  case Nil
  show ?case by simp
next
  case (Cons s sel)
  show ?case
  proof (cases s)
    case CtxDone
    then show ?thesis by (simp add: Cons.IH)
  next
    case (Tick t)
    then show ?thesis
      by (cases "abnormal_tick x c apis since dd script (tickAt t e)") (auto simp: Cons.IH)
  qed
qed

text \<open>
  Claim C3 says that the scheduler loop terminates once the context is cancelled. In the
  Abnormal Security adapter the \<^verbatim>\<open>ctx.Done()\<close> case of the \<^verbatim>\<open>select\<close> logs that the loop is
  exiting and does not return, so the \<^verbatim>\<open>for\<close> loop goes round again: \<^verbatim>\<open>fetchEvents\<close> returns
  for no sequence of \<^verbatim>\<open>select\<close> cases, and after a \<open>CtxDone\<close> the loop takes the cases
  that follow, ticks included. The Darktrace loop returns at the first \<open>CtxDone\<close>.
\<close>

theorem abnormal_fetchEvents_never_returns:
  "abnormal_fetchEvents x a sel script e = None
   \<and> abnormal_fetchEvents x a (CtxDone # sel) script e
       = abnormal_fetchEvents_loop x (conf a) abnormal_apis sel
           (\<lambda>k. now e + (- 1) * queryInterval * Second) (dedupes a) script
           (notify (Debug ''fetching of events exiting'') (cancel e))
   \<and> darktrace_fetchEvents x da (CtxDone # sel) script e
       = Some ((\<lambda>k. UnixMilli (now e)), dt_dedupes da, script,
               notify (Debug ''fetching of events exiting'') (cancel e))"
  by (simp add: abnormal_fetchEvents_def darktrace_fetchEvents_def
        abnormal_fetchEvents_loop_None)

section \<open>Admission over a walk\<close>

text \<open>
  The filter step on one event, whatever the event: it leaves the result set, the
  running maximum and the cache as they are unless the event has an identifier and an
  occurrence time, the identifier is not in the cache and the occurrence time is
  strictly after the watermark. The filter loop is therefore the admission rule, the
  keys of the cache being the identifiers seen.
\<close>

lemma idents_of_simps:
  "idents_of idOf [] = {}"
  "idOf ev = Some i \<Longrightarrow> idents_of idOf (ev # evs) = insert i (idents_of idOf evs)"
  by (auto simp: idents_of_def List.map_filter_simps)

lemma abnormal_filterEvent_total:
  "\<exists>e'. abnormal_filterEvent x api since ev (items, L, d, e) =
     (case abnormal_ident x api ev of
        None \<Rightarrow> (items, L, d, e')
      | Some ident \<Rightarrow>
          (case abnormal_occurrence x api ev of
             None \<Rightarrow> (items, L, d, e')
           | Some t \<Rightarrow>
               if d ident = None \<and> since < t
                 then (items @ [ev], max L t, d(ident \<mapsto> Unix t), e')
               else (items, L, d, e')))"
proof (cases "abnormal_eventId x api ev")
  case (Inl w)
  then show ?thesis by (simp add: abnormal_filterEvent_def abnormal_ident_def)
next
  case (Inr ident)
  show ?thesis
  proof (cases "abnormal_occurrence x api ev")
    case None
    with Inr show ?thesis
      by (auto simp: abnormal_filterEvent_def abnormal_occurrence_def abnormal_ident_def
            split: option.splits)
  next
    case (Some t)
    from abnormal_filterEvent_known [OF Inr Some, of since items L d e]
    show ?thesis using Some Inr by (auto simp: abnormal_ident_def)
  qed
qed

lemma darktrace_filterEvent_total:
  "\<exists>e'. darktrace_filterEvent x api since ev (items, L, d, e) =
     (case darktrace_ident api ev of
        None \<Rightarrow> (items, L, d, e')
      | Some ident \<Rightarrow>
          (case darktrace_occurrence x api ev of
             None \<Rightarrow> (items, L, d, e')
           | Some t \<Rightarrow>
               if d ident = None \<and> time_UnixMilli since < t
                 then (items @ [ev], max L (UnixMilli t), d(ident \<mapsto> UnixMilli (now e)), e')
               else (items, L, d, e')))"
proof (cases "asString (dictIndex ev (dt_idField api))")
  case None
  then show ?thesis by (simp add: darktrace_filterEvent_def darktrace_ident_def)
next
  case (Some ident)
  note id = this
  show ?thesis
  proof (cases "darktrace_occurrence x api ev")
    case None
    with id show ?thesis
      by (auto simp: darktrace_filterEvent_def darktrace_occurrence_def darktrace_ident_def
            split: option.splits)
  next
    case (Some t)
    from darktrace_filterEvent_known [OF id Some, of since items L d e]
    show ?thesis using Some id by (auto simp: darktrace_ident_def)
  qed
qed

lemma admitted_by_rule_idents:
  "ev \<in> set (admitted_by_rule idOf timeOf w events seen)
     \<Longrightarrow> \<exists>ident t. idOf ev = Some ident \<and> timeOf ev = Some t \<and> w < t \<and> ev \<in> set events"
  by (induction events arbitrary: seen) (auto split: option.splits if_splits)

lemma abnormal_filterEvents_rule:
  "st_items (abnormal_filterEvents x api since events (items, L, d, e))
     = items @ admitted_by_rule (abnormal_ident x api) (abnormal_occurrence x api) since
                 events (dom d)
   \<and> dom (st_dedupe (abnormal_filterEvents x api since events (items, L, d, e)))
     = dom d \<union> idents_of (abnormal_ident x api)
                 (admitted_by_rule (abnormal_ident x api) (abnormal_occurrence x api) since
                    events (dom d))"
proof (induction events arbitrary: items L d e)
  case Nil
  show ?case by (simp add: st_items_def st_dedupe_def idents_of_def List.map_filter_simps)
next
  case (Cons ev events)
  obtain e' where step: "abnormal_filterEvent x api since ev (items, L, d, e) =
     (case abnormal_ident x api ev of
        None \<Rightarrow> (items, L, d, e')
      | Some ident \<Rightarrow>
          (case abnormal_occurrence x api ev of
             None \<Rightarrow> (items, L, d, e')
           | Some t \<Rightarrow>
               if d ident = None \<and> since < t
                 then (items @ [ev], max L t, d(ident \<mapsto> Unix t), e')
               else (items, L, d, e')))"
    using abnormal_filterEvent_total by blast
  show ?case
  proof (cases "abnormal_ident x api ev")
    case None
    with step Cons.IH [of items L d e'] show ?thesis by simp
  next
    case (Some ident)
    note id = this
    show ?thesis
    proof (cases "abnormal_occurrence x api ev")
      case None
      with id step Cons.IH [of items L d e'] show ?thesis by simp
    next
      case (Some t)
      show ?thesis
      proof (cases "d ident = None \<and> since < t")
        case True
        then have notin: "ident \<notin> dom d" by auto
        have dm: "dom (d(ident \<mapsto> Unix t)) = insert ident (dom d)" by simp
        note ih = Cons.IH [of "items @ [ev]" "max L t" "d(ident \<mapsto> Unix t)" e',
            unfolded dm]
        have st: "abnormal_filterEvent x api since ev (items, L, d, e)
            = (items @ [ev], max L t, d(ident \<mapsto> Unix t), e')"
          using step True id Some by simp
        have rl: "admitted_by_rule (abnormal_ident x api) (abnormal_occurrence x api) since
                 (ev # events) (dom d)
            = ev # admitted_by_rule (abnormal_ident x api) (abnormal_occurrence x api) since
                 events (insert ident (dom d))"
          using True id Some notin by simp
        let ?R = "admitted_by_rule (abnormal_ident x api) (abnormal_occurrence x api) since events (insert ident (dom d))"
        have e1: "(items @ [ev]) @ ?R = items @ ev # ?R" by simp
        have e2: "dom d \<union> idents_of (abnormal_ident x api) (ev # ?R)
            = insert ident (dom d) \<union> idents_of (abnormal_ident x api) ?R"
          using id by (simp add: idents_of_simps)
        show ?thesis
          unfolding abnormal_filterEvents.simps st rl e2 using ih e1 by metis
      next
        case False
        then have "\<not> (ident \<notin> dom d \<and> since < t)" by auto
        with False id Some step Cons.IH [of items L d e'] show ?thesis by auto
      qed
    qed
  qed
qed

lemma darktrace_filterEvents_rule:
  "st_items (darktrace_filterEvents x api since events (items, L, d, e))
     = items @ admitted_by_rule (darktrace_ident api) (darktrace_occurrence x api)
                 (time_UnixMilli since) events (dom d)
   \<and> dom (st_dedupe (darktrace_filterEvents x api since events (items, L, d, e)))
     = dom d \<union> idents_of (darktrace_ident api)
                 (admitted_by_rule (darktrace_ident api) (darktrace_occurrence x api)
                    (time_UnixMilli since) events (dom d))"
proof (induction events arbitrary: items L d e)
  case Nil
  show ?case by (simp add: st_items_def st_dedupe_def idents_of_def List.map_filter_simps)
next
  case (Cons ev events)
  obtain e' where step: "darktrace_filterEvent x api since ev (items, L, d, e) =
     (case darktrace_ident api ev of
        None \<Rightarrow> (items, L, d, e')
      | Some ident \<Rightarrow>
          (case darktrace_occurrence x api ev of
             None \<Rightarrow> (items, L, d, e')
           | Some t \<Rightarrow>
               if d ident = None \<and> time_UnixMilli since < t
                 then (items @ [ev], max L (UnixMilli t), d(ident \<mapsto> UnixMilli (now e)), e')
               else (items, L, d, e')))"
    using darktrace_filterEvent_total by blast
  show ?case
  proof (cases "darktrace_ident api ev")
    case None
    with step Cons.IH [of items L d e'] show ?thesis by simp
  next
    case (Some ident)
    note id = this
    show ?thesis
    proof (cases "darktrace_occurrence x api ev")
      case None
      with id step Cons.IH [of items L d e'] show ?thesis by simp
    next
      case (Some t)
      show ?thesis
      proof (cases "d ident = None \<and> time_UnixMilli since < t")
        case True
        then have notin: "ident \<notin> dom d" by auto
        have dm: "dom (d(ident \<mapsto> UnixMilli (now e))) = insert ident (dom d)" by simp
        note ih = Cons.IH [of "items @ [ev]" "max L (UnixMilli t)"
            "d(ident \<mapsto> UnixMilli (now e))" e', unfolded dm]
        have st: "darktrace_filterEvent x api since ev (items, L, d, e)
            = (items @ [ev], max L (UnixMilli t), d(ident \<mapsto> UnixMilli (now e)), e')"
          using step True id Some by simp
        have rl: "admitted_by_rule (darktrace_ident api) (darktrace_occurrence x api)
                 (time_UnixMilli since) (ev # events) (dom d)
            = ev # admitted_by_rule (darktrace_ident api) (darktrace_occurrence x api)
                 (time_UnixMilli since) events (insert ident (dom d))"
          using True id Some notin by simp
        let ?R = "admitted_by_rule (darktrace_ident api) (darktrace_occurrence x api) (time_UnixMilli since) events (insert ident (dom d))"
        have e1: "(items @ [ev]) @ ?R = items @ ev # ?R" by simp
        have e2: "dom d \<union> idents_of (darktrace_ident api) (ev # ?R)
            = insert ident (dom d) \<union> idents_of (darktrace_ident api) ?R"
          using id by (simp add: idents_of_simps)
        show ?thesis
          unfolding darktrace_filterEvents.simps st rl e2 using ih e1 by metis
      next
        case False
        then have "\<not> (ident \<notin> dom d \<and> time_UnixMilli since < t)" by auto
        with False id Some step Cons.IH [of items L d e'] show ?thesis by auto
      qed
    qed
  qed
qed

lemma abnormal_getEvents_loop_page:
  assumes "abnormal_doWithRetry x (abnormal_requestUrl x pageUrl api params L page)
             (key api) (responseType api) script (notify (Debug ''requesting from'') e)
           = Some (Inr response, script', e1)"
  shows "abnormal_getEvents_loop x pageUrl api params since page allItems L d script e
       = (if \<not> HasNextPage response
          then Some (Inr (allItems
                       @ admitted_by_rule (abnormal_ident x api) (abnormal_occurrence x api)
                           since (GetDicts response) (dom d)),
                     st_last (abnormal_filterEvents x api since (GetDicts response)
                                ([], L, d, e1)),
                     st_dedupe (abnormal_filterEvents x api since (GetDicts response)
                                ([], L, d, e1)),
                     script',
                     st_env (abnormal_filterEvents x api since (GetDicts response)
                                ([], L, d, e1)))
          else abnormal_getEvents_loop x pageUrl api params since (page + 1)
                 (allItems
                    @ admitted_by_rule (abnormal_ident x api) (abnormal_occurrence x api)
                        since (GetDicts response) (dom d))
                 (st_last (abnormal_filterEvents x api since (GetDicts response)
                             ([], L, d, e1)))
                 (st_dedupe (abnormal_filterEvents x api since (GetDicts response)
                             ([], L, d, e1)))
                 script'
                 (st_env (abnormal_filterEvents x api since (GetDicts response)
                             ([], L, d, e1))))"
proof -
  obtain newItems L1 d1 e2 where
    f: "abnormal_filterEvents x api since (GetDicts response) ([], L, d, e1)
          = (newItems, L1, d1, e2)"
    by (metis prod_cases4)
  have "newItems = admitted_by_rule (abnormal_ident x api) (abnormal_occurrence x api)
                           since (GetDicts response) (dom d)"
    using abnormal_filterEvents_rule [of x api since "GetDicts response" "[]" L d e1] f
    by (simp add: st_items_def)
  then show ?thesis
    using assms f
    by (simp add: abnormal_getEvents_loop.simps [of _ _ _ _ _ _ _ _ _ script]
          st_last_def st_dedupe_def st_env_def)
qed

lemma darktrace_getEvents_rule:
  assumes "darktrace_doWithRetry x c
             (pageUrl @ ''&starttime='' @ showInt since @ ''&endtime=''
                @ showInt (UnixMilli (now e)))
             api script e = Some (Inr events, script', e1)"
  shows "map_option fst (darktrace_getEvents x c pageUrl since api dedupe script e)
       = Some (Inr (admitted_by_rule (darktrace_ident api) (darktrace_occurrence x api)
                      (time_UnixMilli since) events (dom dedupe)))"
proof -
  obtain items L1 d1 e2 where
    f: "darktrace_filterEvents x api since events ([], since, dedupe, e1)
          = (items, L1, d1, e2)"
    by (metis prod_cases4)
  have "items = admitted_by_rule (darktrace_ident api) (darktrace_occurrence x api)
                      (time_UnixMilli since) events (dom dedupe)"
    using darktrace_filterEvents_rule [of x api since events "[]" since dedupe e1] f
    by (simp add: st_items_def)
  then show ?thesis
    using assms f by (simp add: darktrace_getEvents_def darktrace_getEvents_body_def)
qed

lemma abnormal_filterEvents_after:
  "ev \<in> set (st_items (abnormal_filterEvents x api since events ([], L, d, e)))
     \<Longrightarrow> \<exists>ident t. abnormal_ident x api ev = Some ident
           \<and> abnormal_occurrence x api ev = Some t \<and> since < t"
  using abnormal_filterEvents_rule [of x api since events "[]" L d e]
    admitted_by_rule_idents [of ev "abnormal_ident x api" "abnormal_occurrence x api" since
      events "dom d"]
  by auto

lemma darktrace_filterEvents_after:
  "ev \<in> set (st_items (darktrace_filterEvents x api since events ([], L, d, e)))
     \<Longrightarrow> \<exists>ident t. darktrace_ident api ev = Some ident
           \<and> darktrace_occurrence x api ev = Some t \<and> time_UnixMilli since < t"
  using darktrace_filterEvents_rule [of x api since events "[]" L d e]
    admitted_by_rule_idents [of ev "darktrace_ident api" "darktrace_occurrence x api"
      "time_UnixMilli since" events "dom d"]
  by auto

text \<open>
  Claim C4. The events a walk admits are those of the admission rule
  \<^const>\<open>admitted_by_rule\<close>. In both adapters the filter loop, run on the events of an
  answer with a result set and a dedupe cache, appends to the result set exactly the
  events that have an identifier and a parsed occurrence time, whose identifier is in
  the cache neither at the start nor by an earlier admission of the loop, and whose
  occurrence time is strictly after the input watermark; it adds to the keys of the
  cache exactly the identifiers of these events. Every event it appends occurred
  strictly after the input watermark, so an event whose occurrence time is the watermark
  is never admitted. In the Abnormal Security walk every page that is answered goes
  through this loop with the cache the earlier pages left, and the walk goes on or
  returns with the events so admitted; the Darktrace walk returns the events the loop
  admits from its one answer.
\<close>

theorem admitted_iff_unseen_and_after_watermark:
  "st_items (abnormal_filterEvents x api since events (items, L, d, e))
     = items @ admitted_by_rule (abnormal_ident x api) (abnormal_occurrence x api) since
                 events (dom d)
   \<and> dom (st_dedupe (abnormal_filterEvents x api since events (items, L, d, e)))
     = dom d \<union> idents_of (abnormal_ident x api)
                 (admitted_by_rule (abnormal_ident x api) (abnormal_occurrence x api) since
                    events (dom d))
   \<and> (\<forall>ev \<in> set (st_items (abnormal_filterEvents x api since events ([], L, d, e))).
         \<exists>ident t. abnormal_ident x api ev = Some ident
           \<and> abnormal_occurrence x api ev = Some t \<and> since < t)
   \<and> (abnormal_doWithRetry x (abnormal_requestUrl x pageUrl api params L page)
             (key api) (responseType api) script (notify (Debug ''requesting from'') e)
           = Some (Inr response, script', eb) \<longrightarrow>
        abnormal_getEvents_loop x pageUrl api params since page allItems L d script e
          = (if \<not> HasNextPage response
             then Some (Inr (allItems
                       @ admitted_by_rule (abnormal_ident x api) (abnormal_occurrence x api)
                           since (GetDicts response) (dom d)),
                     st_last (abnormal_filterEvents x api since (GetDicts response)
                                ([], L, d, eb)),
                     st_dedupe (abnormal_filterEvents x api since (GetDicts response)
                                ([], L, d, eb)),
                     script',
                     st_env (abnormal_filterEvents x api since (GetDicts response)
                                ([], L, d, eb)))
             else abnormal_getEvents_loop x pageUrl api params since (page + 1)
                 (allItems
                    @ admitted_by_rule (abnormal_ident x api) (abnormal_occurrence x api)
                        since (GetDicts response) (dom d))
                 (st_last (abnormal_filterEvents x api since (GetDicts response)
                             ([], L, d, eb)))
                 (st_dedupe (abnormal_filterEvents x api since (GetDicts response)
                             ([], L, d, eb)))
                 script'
                 (st_env (abnormal_filterEvents x api since (GetDicts response)
                             ([], L, d, eb)))))
   \<and> st_items (darktrace_filterEvents x dapi dsince events (items, dL, d, e))
     = items @ admitted_by_rule (darktrace_ident dapi) (darktrace_occurrence x dapi)
                 (time_UnixMilli dsince) events (dom d)
   \<and> dom (st_dedupe (darktrace_filterEvents x dapi dsince events (items, dL, d, e)))
     = dom d \<union> idents_of (darktrace_ident dapi)
                 (admitted_by_rule (darktrace_ident dapi) (darktrace_occurrence x dapi)
                    (time_UnixMilli dsince) events (dom d))
   \<and> (\<forall>ev \<in> set (st_items (darktrace_filterEvents x dapi dsince events ([], dL, d, e))).
         \<exists>ident t. darktrace_ident dapi ev = Some ident
           \<and> darktrace_occurrence x dapi ev = Some t \<and> time_UnixMilli dsince < t)
   \<and> (darktrace_doWithRetry x dc
             (pageUrl @ ''&starttime='' @ showInt dsince @ ''&endtime=''
                @ showInt (UnixMilli (now e)))
             dapi script e = Some (Inr devents, script', eb) \<longrightarrow>
        map_option fst (darktrace_getEvents x dc pageUrl dsince dapi d script e)
          = Some (Inr (admitted_by_rule (darktrace_ident dapi) (darktrace_occurrence x dapi)
                         (time_UnixMilli dsince) devents (dom d))))"
  using abnormal_filterEvents_rule [of x api since events items L d e]
    darktrace_filterEvents_rule [of x dapi dsince events items dL d e]
    abnormal_filterEvents_after [of _ x api since events L d e]
    darktrace_filterEvents_after [of _ x dapi dsince events dL d e]
    abnormal_getEvents_loop_page [of x pageUrl api params L page script e response script' eb
      since allItems d]
    darktrace_getEvents_rule [of x dc pageUrl dsince e dapi script devents script' eb d]
  by (intro conjI ballI impI) blast+

lemma demoParse_threat0: "demoParse ''1699999000'' = Some 1699999000000000000"
  by (simp add: demoParse_def isDigit_def digitsValue_def Second_def)

lemma demo_threat_idents:
  "abnormal_ident demoExternals threatsApi threat0 = Some ''T0''"
  "abnormal_ident demoExternals threatsApi threat1 = Some ''T1''"
  "abnormal_ident demoExternals threatsApi threat2 = Some ''T2''"
  by (simp_all add: abnormal_ident_def abnormal_eventId_def threatsApi_simps threat0_def
        threat1_def threat2_def dictIndex_def asString_def)

lemma threat0_occurrence:
  "abnormal_occurrence demoExternals threatsApi threat0 = Some 1699999000000000000"
  by (simp add: abnormal_occurrence_def threatsApi_simps threat0_def
        dictIndex_def asString_def demoExternals_def demoParse_threat0)

lemma demo_event_idents:
  "darktrace_ident aiAnalystApi evA = Some ''A''"
  "darktrace_ident aiAnalystApi evB = Some ''B''"
  by (simp_all add: darktrace_ident_def evA_id evB_id)

lemma demo_rule_threats:
  "admitted_by_rule (abnormal_ident demoExternals threatsApi)
     (abnormal_occurrence demoExternals threatsApi) 1699999000000000000
     [threat1, threat1, threat0, threat2] {} = [threat1, threat2]"
  by (simp add: demo_threat_idents threat0_occurrence threat1_occurrence threat2_occurrence)

lemma demo_rule_page2:
  "admitted_by_rule (abnormal_ident demoExternals threatsApi)
     (abnormal_occurrence demoExternals threatsApi) 1699999000000000000 [threat2] {}
     = [threat2]"
  by (simp add: demo_threat_idents threat2_occurrence)

lemma demo_rule_events:
  "admitted_by_rule (darktrace_ident aiAnalystApi)
     (darktrace_occurrence demoExternals aiAnalystApi) (time_UnixMilli 1700000000000)
     [evA, evA, evB] {} = [evA, evB]"
  "admitted_by_rule (darktrace_ident aiAnalystApi)
     (darktrace_occurrence demoExternals aiAnalystApi) (time_UnixMilli 1700000000000)
     [evA] {} = [evA]"
  by (simp_all add: demo_event_idents evA_occurrence evB_occurrence time_UnixMilli_def)

lemma demo_page2_call:
  "\<exists>e1. abnormal_doWithRetry demoExternals
          (abnormal_requestUrl demoExternals ''u'' threatsApi
             [''filter'', ''pageNumber'', ''pageSize''] 1699999000000000000 1)
          (key threatsApi) (responseType threatsApi) [Response 200 [] ''page2'']
          (notify (Debug ''requesting from'') env0)
        = Some (Inr ([threat2], False), [], e1)"
  by (simp add: demo_newRequest threatsApi_simps demo_decode_page2)

lemma demo_list_call:
  "\<exists>e1. darktrace_doWithRetry demoExternals dtCfgDemo
          (''u'' @ ''&starttime='' @ showInt 1700000000000 @ ''&endtime=''
             @ showInt (UnixMilli (now env0)))
          aiAnalystApi [Response 200 [] ''A''] env0
        = Some (Inr [evA], [], e1)"
  by (simp add: demo_newRequest demo_signature demo_list_A)

theorem admitted_iff_unseen_and_after_watermark_witness:
  "st_items (abnormal_filterEvents demoExternals threatsApi 1699999000000000000
       [threat1, threat1, threat0, threat2] ([], 1699999000000000000, Map.empty, env0))
     = [threat1, threat2]
   \<and> dom (st_dedupe (abnormal_filterEvents demoExternals threatsApi 1699999000000000000
       [threat1, threat1, threat0, threat2] ([], 1699999000000000000, Map.empty, env0)))
     = {''T1'', ''T2''}
   \<and> abnormal_occurrence demoExternals threatsApi threat0 = Some 1699999000000000000
   \<and> threat0 \<notin> set (st_items (abnormal_filterEvents demoExternals threatsApi
       1699999000000000000 [threat1, threat1, threat0, threat2]
       ([], 1699999000000000000, Map.empty, env0)))
   \<and> map_option fst (abnormal_getEvents_loop demoExternals ''u'' threatsApi
       [''filter'', ''pageNumber'', ''pageSize''] 1699999000000000000 1 []
       1699999000000000000 Map.empty [Response 200 [] ''page2''] env0)
     = Some (Inr [threat2])
   \<and> st_items (darktrace_filterEvents demoExternals aiAnalystApi 1700000000000
       [evA, evA, evB] ([], 1700000000000, Map.empty, env0))
     = [evA, evB]
   \<and> dom (st_dedupe (darktrace_filterEvents demoExternals aiAnalystApi 1700000000000
       [evA, evA, evB] ([], 1700000000000, Map.empty, env0)))
     = {''A'', ''B''}
   \<and> map_option fst (darktrace_getEvents demoExternals dtCfgDemo ''u'' 1700000000000
       aiAnalystApi Map.empty [Response 200 [] ''A''] env0)
     = Some (Inr [evA])"
proof -
  obtain e1 where c1:
    "abnormal_doWithRetry demoExternals
          (abnormal_requestUrl demoExternals ''u'' threatsApi
             [''filter'', ''pageNumber'', ''pageSize''] 1699999000000000000 1)
          (key threatsApi) (responseType threatsApi) [Response 200 [] ''page2'']
          (notify (Debug ''requesting from'') env0)
        = Some (Inr ([threat2], False), [], e1)"
    using demo_page2_call by blast
  obtain e2 where c2:
    "darktrace_doWithRetry demoExternals dtCfgDemo
          (''u'' @ ''&starttime='' @ showInt 1700000000000 @ ''&endtime=''
             @ showInt (UnixMilli (now env0)))
          aiAnalystApi [Response 200 [] ''A''] env0
        = Some (Inr [evA], [], e2)"
    using demo_list_call by blast
  note filt = admitted_iff_unseen_and_after_watermark
    [where x = demoExternals and api = threatsApi and since = 1699999000000000000
       and events = "[threat1, threat1, threat0, threat2]" and items = "[]"
       and L = 1699999000000000000 and d = Map.empty and e = env0
       and dapi = aiAnalystApi and dsince = 1700000000000 and dL = 1700000000000]
  note walk = admitted_iff_unseen_and_after_watermark
    [where x = demoExternals and api = threatsApi and since = 1699999000000000000
       and pageUrl = "''u''" and params = "[''filter'', ''pageNumber'', ''pageSize'']"
       and L = 1699999000000000000 and page = 1 and script = "[Response 200 [] ''page2'']"
       and e = env0 and response = "([threat2], False)" and script' = "[]" and eb = e1
       and allItems = "[]" and d = Map.empty]
  note dfilt = admitted_iff_unseen_and_after_watermark
    [where x = demoExternals and dapi = aiAnalystApi and dsince = 1700000000000
       and events = "[evA, evA, evB]" and items = "[]"
       and dL = 1700000000000 and d = Map.empty and e = env0]
  note dwalk = admitted_iff_unseen_and_after_watermark
    [where x = demoExternals and dapi = aiAnalystApi and dsince = 1700000000000
       and dc = dtCfgDemo and pageUrl = "''u''" and script = "[Response 200 [] ''A'']"
       and e = env0 and devents = "[evA]" and script' = "[]" and eb = e2 and d = Map.empty]
  have a1: "st_items (abnormal_filterEvents demoExternals threatsApi 1699999000000000000
       [threat1, threat1, threat0, threat2] ([], 1699999000000000000, Map.empty, env0))
     = [threat1, threat2]"
    by (rule filt [THEN conjunct1, unfolded dom_empty demo_rule_threats append_Nil])
  have a2: "dom (st_dedupe (abnormal_filterEvents demoExternals threatsApi 1699999000000000000
       [threat1, threat1, threat0, threat2] ([], 1699999000000000000, Map.empty, env0)))
     = {''T1'', ''T2''}"
    using filt [THEN conjunct2, THEN conjunct1, unfolded dom_empty demo_rule_threats]
    by (simp add: idents_of_simps demo_threat_idents
          del: abnormal_filterEvents.simps)
  have a3: "threat0 \<notin> set (st_items (abnormal_filterEvents demoExternals threatsApi
       1699999000000000000 [threat1, threat1, threat0, threat2]
       ([], 1699999000000000000, Map.empty, env0)))"
    using filt [THEN conjunct2, THEN conjunct2, THEN conjunct1] threat0_occurrence
    by (fastforce simp del: abnormal_filterEvents.simps)
  have a4: "map_option fst (abnormal_getEvents_loop demoExternals ''u'' threatsApi
       [''filter'', ''pageNumber'', ''pageSize''] 1699999000000000000 1 []
       1699999000000000000 Map.empty [Response 200 [] ''page2''] env0)
     = Some (Inr [threat2])"
    using walk [THEN conjunct2, THEN conjunct2, THEN conjunct2, THEN conjunct1,
                rule_format, OF c1]
    by (simp add: HasNextPage_def GetDicts_def demo_rule_page2
          del: admitted_by_rule.simps abnormal_filterEvents.simps)
  have b1: "st_items (darktrace_filterEvents demoExternals aiAnalystApi 1700000000000
       [evA, evA, evB] ([], 1700000000000, Map.empty, env0))
     = [evA, evB]"
    by (rule dfilt [THEN conjunct2, THEN conjunct2, THEN conjunct2, THEN conjunct2,
                 THEN conjunct1, unfolded dom_empty demo_rule_events append_Nil])
  have b2: "dom (st_dedupe (darktrace_filterEvents demoExternals aiAnalystApi 1700000000000
       [evA, evA, evB] ([], 1700000000000, Map.empty, env0)))
     = {''A'', ''B''}"
    using dfilt [THEN conjunct2, THEN conjunct2, THEN conjunct2, THEN conjunct2,
                 THEN conjunct2, THEN conjunct1, unfolded dom_empty demo_rule_events]
    by (simp add: idents_of_simps demo_event_idents del: darktrace_filterEvents.simps)
  have b3: "map_option fst (darktrace_getEvents demoExternals dtCfgDemo ''u'' 1700000000000
       aiAnalystApi Map.empty [Response 200 [] ''A''] env0)
     = Some (Inr [evA])"
    using dwalk [THEN conjunct2, THEN conjunct2, THEN conjunct2, THEN conjunct2,
                 THEN conjunct2, THEN conjunct2, THEN conjunct2, rule_format, OF c2]
    by (simp add: demo_rule_events del: admitted_by_rule.simps)
  from a1 a2 a3 a4 b1 b2 b3 threat0_occurrence show ?thesis by blast
qed

end
